theory Spec2Isabelle
  imports Main
begin

section \<open>TaskMutex: the data model\<close>

text \<open>
  A shallow embedding of \<^verbatim>\<open>include/Gaffer/Private/IECorePreview/TaskMutex.h\<close>.

  Every method is a function from the memory the call can see to an outcome and the memory
  afterwards. The memory holds the \<^verbatim>\<open>ScopedLock\<close> the method is called on, the
  \<^verbatim>\<open>TaskMutex\<close> objects by address, the heap of shared \<^verbatim>\<open>ExecutionState\<close>
  objects, the data the user closures work on, and the list of the actions the calling thread
  has performed on shared objects, oldest first. A call runs without interference of other
  threads; what other threads have done before the call is in the memory the call starts from.
  Assertions are checked, as in a debug build: a call whose \<^verbatim>\<open>assert\<close> fails stops
  there. A user closure is a function on the user data that completes or throws; a thread that
  waits for a task group executes the queued closures itself.

  The classes of TBB and Boost are modelled by their documented contracts:
  \<^item> \<^verbatim>\<open>tbb::spin_mutex\<close>: free or held by one thread; taking a held one spins;
  \<^item> \<^verbatim>\<open>tbb::spin_rw_mutex\<close> and its \<^verbatim>\<open>scoped_lock\<close>: one writer or many readers,
    a pending-writer flag that keeps new readers out, \<^verbatim>\<open>try_acquire\<close>,
    \<^verbatim>\<open>release\<close>, \<^verbatim>\<open>upgrade_to_writer\<close>;
  \<^item> \<^verbatim>\<open>tbb::task_arena::execute\<close>: the calling thread joins the arena unless it is
    inside already, the observers of the arena are told on entry and on exit, and an
    exception of the body is passed on after the thread has left;
  \<^item> \<^verbatim>\<open>tbb::task_group\<close>: \<^verbatim>\<open>run\<close> queues a closure, \<^verbatim>\<open>wait\<close> returns once
    the group is empty and throws the exception of a task that threw;
  \<^item> \<^verbatim>\<open>boost::container::flat_set\<close>: a sorted vector without duplicates.
\<close>

type_synonym tid = nat
type_synonym addr = nat

datatype exn = Exn nat

text \<open>
  How a call ends: it returns a value, it throws, it stops at a failed \<^verbatim>\<open>assert\<close> (or at
  the dereference of a null or dangling pointer), or it spins on a lock that no other thread
  is there to release.
\<close>

datatype 'a outcome = Returned 'a | Raised exn | Aborted | Blocked

text \<open>
  \<open>Msx a\<close> is \<^verbatim>\<open>m_executionStateMutex\<close> of the TaskMutex at address \<open>a\<close>;
  \<open>Mo s\<close> is the mutex of the ArenaObserver of the ExecutionState at address \<open>s\<close>.
\<close>

datatype lock = Msx addr | Mo addr

datatype event =
    Acquire lock
  | Release lock
  | ReadE addr
  | WriteE addr "addr option"
  | FindT addr tid
  | InsertT addr tid
  | EraseT addr tid
  | TryAcquire addr bool bool
  | ReleaseL addr bool
  | UpgradeL addr
  | AcquireL addr bool
  | Notify bool bool
  | MakeShared addr
  | EnterArena addr
  | LeaveArena addr
  | Run addr
  | Wait addr

record spin_rw_mutex =
  rw_writer :: bool
  rw_pending :: bool
  rw_readers :: nat

text \<open>
  \<^verbatim>\<open>ScopedLock\<close>. The guard \<open>m_lock\<close> is empty or holds the internal mutex of the
  TaskMutex at an address in a mode (\<open>True\<close> for writer).
\<close>

record ScopedLock =
  m_lock :: "(addr \<times> bool) option"
  m_mutex :: "addr option"
  m_writer :: bool
  m_recursive :: bool

text \<open>
  \<^verbatim>\<open>TaskMutex\<close>. \<open>tm_mutex\<close> is the member \<^verbatim>\<open>m_mutex\<close> (the name is taken by the
  back-pointer of \<^verbatim>\<open>ScopedLock\<close>); \<open>m_executionState\<close> is the slot the spec calls E.
\<close>

record TaskMutex =
  tm_mutex :: spin_rw_mutex
  m_executionStateMutex :: "tid option"
  m_executionState :: "addr option"

text \<open>\<^verbatim>\<open>ArenaObserver\<close>; \<open>ao_mutex\<close> is its member \<^verbatim>\<open>m_mutex\<close>.\<close>

record ArenaObserver =
  ao_mutex :: "tid option"
  m_threadIdSet :: "tid list"

text \<open>
  \<^verbatim>\<open>ExecutionState\<close>. \<open>arena\<close> is the set of threads that have joined the arena,
  \<open>taskGroup\<close> the closures that were run and have not been executed yet.
\<close>

record 'u ExecutionState =
  arena :: "tid set"
  taskGroup :: "('u \<Rightarrow> exn option \<times> 'u) list"
  arenaObserver :: ArenaObserver

record 'u memory =
  self :: ScopedLock
  mutexes :: "addr \<Rightarrow> TaskMutex"
  heap :: "'u ExecutionState list"
  user :: 'u
  trace :: "event list"

type_synonym ('a, 'u) op = "'u memory \<Rightarrow> 'a outcome \<times> 'u memory"

section \<open>Sequencing\<close>

definition return_op :: "'a \<Rightarrow> ('a, 'u) op" where
  "return_op x s = (Returned x, s)"

text \<open>Statements in sequence: what follows runs only if what precedes returned.\<close>

definition bind_op :: "('a, 'u) op \<Rightarrow> ('a \<Rightarrow> ('b, 'u) op) \<Rightarrow> ('b, 'u) op" where
  "bind_op m k s =
     (case m s of
        (Returned x, s') \<Rightarrow> k x s'
      | (Raised e, s') \<Rightarrow> (Raised e, s')
      | (Aborted, s') \<Rightarrow> (Aborted, s')
      | (Blocked, s') \<Rightarrow> (Blocked, s'))"

definition then_op :: "(unit, 'u) op \<Rightarrow> ('b, 'u) op \<Rightarrow> ('b, 'u) op" where
  "then_op m n = bind_op m (\<lambda>_. n)"

text \<open>
  A scope that runs \<open>cleanup\<close> when \<open>body\<close> has returned or thrown (a destructor on scope
  exit and on stack unwinding).
\<close>

definition finally_op :: "('a, 'u) op \<Rightarrow> (unit, 'u) op \<Rightarrow> ('a, 'u) op" where
  "finally_op body cleanup s =
     (case body s of
        (Returned x, s') \<Rightarrow> bind_op cleanup (\<lambda>_. return_op x) s'
      | (Raised e, s') \<Rightarrow> bind_op cleanup (\<lambda>_ t. (Raised e, t)) s'
      | (Aborted, s') \<Rightarrow> (Aborted, s')
      | (Blocked, s') \<Rightarrow> (Blocked, s'))"

definition assert_op :: "bool \<Rightarrow> (unit, 'u) op" where
  "assert_op b s = (if b then (Returned (), s) else (Aborted, s))"

definition log :: "event \<Rightarrow> (unit, 'u) op" where
  "log e s = (Returned (), s\<lparr>trace := trace s @ [e]\<rparr>)"

definition get_self :: "(ScopedLock, 'u) op" where
  "get_self s = (Returned (self s), s)"

definition set_self :: "(ScopedLock \<Rightarrow> ScopedLock) \<Rightarrow> (unit, 'u) op" where
  "set_self f s = (Returned (), s\<lparr>self := f (self s)\<rparr>)"

definition update_mutex :: "addr \<Rightarrow> (TaskMutex \<Rightarrow> TaskMutex) \<Rightarrow> 'u memory \<Rightarrow> 'u memory" where
  "update_mutex a f s = s\<lparr>mutexes := (mutexes s)(a := f (mutexes s a))\<rparr>"

text \<open>Following a shared pointer; null and dangling pointers end the call.\<close>

definition deref :: "addr option \<Rightarrow> ('u ExecutionState, 'u) op" where
  "deref p s =
     (case p of
        None \<Rightarrow> (Aborted, s)
      | Some e \<Rightarrow> if e < length (heap s) then (Returned (heap s ! e), s) else (Aborted, s))"

definition update_state ::
    "addr \<Rightarrow> ('u ExecutionState \<Rightarrow> 'u ExecutionState) \<Rightarrow> 'u memory \<Rightarrow> 'u memory" where
  "update_state e f s = s\<lparr>heap := (heap s)[e := f (heap s ! e)]\<rparr>"

section \<open>The runtime the mutex is built on\<close>

subsection \<open>\<^verbatim>\<open>tbb::spin_mutex::scoped_lock\<close> on \<^verbatim>\<open>m_executionStateMutex\<close>\<close>

definition lock_Msx :: "tid \<Rightarrow> addr \<Rightarrow> (unit, 'u) op" where
  "lock_Msx t a s =
     (if m_executionStateMutex (mutexes s a) = None
      then log (Acquire (Msx a))
             (update_mutex a (\<lambda>m. m\<lparr>m_executionStateMutex := Some t\<rparr>) s)
      else (Blocked, s))"

definition unlock_Msx :: "addr \<Rightarrow> (unit, 'u) op" where
  "unlock_Msx a s =
     log (Release (Msx a)) (update_mutex a (\<lambda>m. m\<lparr>m_executionStateMutex := None\<rparr>) s)"

text \<open>Reading and writing the slot \<^verbatim>\<open>m_executionState\<close>.\<close>

definition readE :: "addr \<Rightarrow> (addr option, 'u) op" where
  "readE a s = (Returned (m_executionState (mutexes s a)), s\<lparr>trace := trace s @ [ReadE a]\<rparr>)"

definition writeE :: "addr \<Rightarrow> addr option \<Rightarrow> (unit, 'u) op" where
  "writeE a v s =
     log (WriteE a v) (update_mutex a (\<lambda>m. m\<lparr>m_executionState := v\<rparr>) s)"

subsection \<open>\<^verbatim>\<open>tbb::spin_rw_mutex::scoped_lock\<close>: the guard \<^verbatim>\<open>m_lock\<close>\<close>

definition can_acquire :: "bool \<Rightarrow> spin_rw_mutex \<Rightarrow> bool" where
  "can_acquire write L =
     (if write then \<not> rw_writer L \<and> rw_readers L = 0
      else \<not> rw_writer L \<and> \<not> rw_pending L)"

definition granted :: "bool \<Rightarrow> spin_rw_mutex \<Rightarrow> spin_rw_mutex" where
  "granted write L =
     (if write then L\<lparr>rw_writer := True, rw_pending := False\<rparr>
      else L\<lparr>rw_readers := Suc (rw_readers L)\<rparr>)"

definition released :: "bool \<Rightarrow> spin_rw_mutex \<Rightarrow> spin_rw_mutex" where
  "released write L =
     (if write then L\<lparr>rw_writer := False, rw_pending := False\<rparr>
      else L\<lparr>rw_readers := rw_readers L - 1\<rparr>)"

definition try_acquire :: "addr \<Rightarrow> bool \<Rightarrow> (bool, 'u) op" where
  "try_acquire a write =
     bind_op get_self (\<lambda>h.
     then_op (assert_op (m_lock h = None)) (\<lambda>s.
       if can_acquire write (tm_mutex (mutexes s a))
       then (Returned True,
             (update_mutex a (\<lambda>m. m\<lparr>tm_mutex := granted write (tm_mutex m)\<rparr>) s)
               \<lparr>self := h\<lparr>m_lock := Some (a, write)\<rparr>,
                trace := trace s @ [TryAcquire a write True]\<rparr>)
       else (Returned False, s\<lparr>trace := trace s @ [TryAcquire a write False]\<rparr>)))"

definition lock_release :: "(unit, 'u) op" where
  "lock_release =
     bind_op get_self (\<lambda>h.
       case m_lock h of
         None \<Rightarrow> assert_op False
       | Some (a, w) \<Rightarrow> (\<lambda>s.
           (Returned (),
            (update_mutex a (\<lambda>m. m\<lparr>tm_mutex := released w (tm_mutex m)\<rparr>) s)
              \<lparr>self := h\<lparr>m_lock := None\<rparr>,
               trace := trace s @ [ReleaseL a w]\<rparr>)))"

text \<open>
  \<^verbatim>\<open>upgrade_to_writer\<close> returns once the caller is the only holder, as writer. Whether it
  had to give up its read access on the way is decided by the other holders: the argument
  \<open>contended\<close> says so, and the answer of the lock is its negation.
\<close>

definition upgrade_to_writer :: "bool \<Rightarrow> (bool, 'u) op" where
  "upgrade_to_writer contended =
     bind_op get_self (\<lambda>h.
       case m_lock h of
         None \<Rightarrow> bind_op (assert_op False) (\<lambda>_. return_op False)
       | Some (a, w) \<Rightarrow>
           if w then return_op True
           else (\<lambda>s.
             (Returned (\<not> contended),
              (update_mutex a (\<lambda>m. m\<lparr>tm_mutex :=
                  \<lparr>rw_writer = True, rw_pending = False, rw_readers = 0\<rparr>\<rparr>) s)
                \<lparr>self := h\<lparr>m_lock := Some (a, True)\<rparr>,
                 trace := trace s @
                   (if contended then [ReleaseL a False, AcquireL a True] else [UpgradeL a])\<rparr>)))"

subsection \<open>\<^verbatim>\<open>boost::container::flat_set\<close>\<close>

definition flat_set_find :: "tid \<Rightarrow> tid list \<Rightarrow> bool" where
  "flat_set_find t xs = (t \<in> set xs)"

definition flat_set_insert :: "tid \<Rightarrow> tid list \<Rightarrow> tid list" where
  "flat_set_insert t xs = (if t \<in> set xs then xs else insort t xs)"

definition flat_set_erase :: "tid \<Rightarrow> tid list \<Rightarrow> tid list" where
  "flat_set_erase t xs = removeAll t xs"

subsection \<open>\<^verbatim>\<open>ArenaObserver\<close>\<close>

definition ArenaObserver_new :: ArenaObserver where
  "ArenaObserver_new = \<lparr>ao_mutex = None, m_threadIdSet = []\<rparr>"

definition update_observer ::
    "addr \<Rightarrow> (ArenaObserver \<Rightarrow> ArenaObserver) \<Rightarrow> 'u memory \<Rightarrow> 'u memory" where
  "update_observer e f = update_state e (\<lambda>x. x\<lparr>arenaObserver := f (arenaObserver x)\<rparr>)"

definition lock_Mo :: "tid \<Rightarrow> addr \<Rightarrow> (unit, 'u) op" where
  "lock_Mo t e =
     bind_op (deref (Some e)) (\<lambda>x s.
       if ao_mutex (arenaObserver x) = None
       then log (Acquire (Mo e)) (update_observer e (\<lambda>ob. ob\<lparr>ao_mutex := Some t\<rparr>) s)
       else (Blocked, s))"

definition unlock_Mo :: "addr \<Rightarrow> (unit, 'u) op" where
  "unlock_Mo e s =
     log (Release (Mo e)) (update_observer e (\<lambda>ob. ob\<lparr>ao_mutex := None\<rparr>) s)"

definition containsThisThread :: "tid \<Rightarrow> addr \<Rightarrow> (bool, 'u) op" where
  "containsThisThread t e =
     then_op (lock_Mo t e)
    (bind_op (deref (Some e)) (\<lambda>x.
     then_op (log (FindT e t))
    (then_op (unlock_Mo e)
    (return_op (flat_set_find t (m_threadIdSet (arenaObserver x)))))))"

definition on_scheduler_entry :: "tid \<Rightarrow> addr \<Rightarrow> (unit, 'u) op" where
  "on_scheduler_entry t e =
     bind_op (containsThisThread t e) (\<lambda>inside.
     then_op (assert_op (\<not> inside))
    (then_op (lock_Mo t e)
    (then_op (\<lambda>s. log (InsertT e t)
        (update_observer e (\<lambda>ob. ob\<lparr>m_threadIdSet := flat_set_insert t (m_threadIdSet ob)\<rparr>) s))
    (unlock_Mo e))))"

definition on_scheduler_exit :: "tid \<Rightarrow> addr \<Rightarrow> (unit, 'u) op" where
  "on_scheduler_exit t e =
     bind_op (containsThisThread t e) (\<lambda>inside.
     then_op (assert_op inside)
    (then_op (lock_Mo t e)
    (then_op (\<lambda>s. log (EraseT e t)
        (update_observer e (\<lambda>ob. ob\<lparr>m_threadIdSet := flat_set_erase t (m_threadIdSet ob)\<rparr>) s))
    (unlock_Mo e))))"

subsection \<open>\<^verbatim>\<open>ExecutionState\<close>, its arena and its task group\<close>

definition ExecutionState_new :: "'u ExecutionState" where
  "ExecutionState_new = \<lparr>arena = {}, taskGroup = [], arenaObserver = ArenaObserver_new\<rparr>"

text \<open>\<^verbatim>\<open>std::make_shared<ExecutionState>()\<close>: a new object at a new address.\<close>

definition make_shared :: "(addr, 'u) op" where
  "make_shared s =
     (Returned (length (heap s)),
      s\<lparr>heap := heap s @ [ExecutionState_new],
        trace := trace s @ [MakeShared (length (heap s))]\<rparr>)"

definition join_arena :: "tid \<Rightarrow> addr \<Rightarrow> (unit, 'u) op" where
  "join_arena t e s =
     log (EnterArena e) (update_state e (\<lambda>x. x\<lparr>arena := insert t (arena x)\<rparr>) s)"

definition leave_arena :: "tid \<Rightarrow> addr \<Rightarrow> (unit, 'u) op" where
  "leave_arena t e s =
     log (LeaveArena e) (update_state e (\<lambda>x. x\<lparr>arena := arena x - {t}\<rparr>) s)"

definition arena_execute :: "tid \<Rightarrow> addr option \<Rightarrow> ('a, 'u) op \<Rightarrow> ('a, 'u) op" where
  "arena_execute t p body =
     bind_op (deref p) (\<lambda>x.
       if t \<in> arena x then body
       else
         then_op (join_arena t (the p))
        (then_op (on_scheduler_entry t (the p))
        (finally_op body
           (then_op (on_scheduler_exit t (the p)) (leave_arena t (the p))))))"

definition taskGroup_run :: "addr option \<Rightarrow> ('u \<Rightarrow> exn option \<times> 'u) \<Rightarrow> (unit, 'u) op" where
  "taskGroup_run p f =
     bind_op (deref p) (\<lambda>x s.
       log (Run (the p)) (update_state (the p) (\<lambda>x. x\<lparr>taskGroup := taskGroup x @ [f]\<rparr>) s))"

text \<open>
  The queued closures in order; after one has thrown the rest of the group is cancelled.
\<close>

fun run_tasks :: "('u \<Rightarrow> exn option \<times> 'u) list \<Rightarrow> 'u \<Rightarrow> exn option \<times> 'u" where
  "run_tasks [] u = (None, u)"
| "run_tasks (f # fs) u =
     (case f u of
        (None, u') \<Rightarrow> run_tasks fs u'
      | (Some e, u') \<Rightarrow> (Some e, u'))"

definition taskGroup_wait :: "addr option \<Rightarrow> (unit, 'u) op" where
  "taskGroup_wait p =
     bind_op (deref p) (\<lambda>x s.
       let (r, u') = run_tasks (taskGroup x) (user s);
           s' = (update_state (the p) (\<lambda>x. x\<lparr>taskGroup := []\<rparr>) s)
                  \<lparr>user := u', trace := trace s @ [Wait (the p)]\<rparr>
       in (case r of None \<Rightarrow> Returned () | Some e \<Rightarrow> Raised e, s'))"

section \<open>\<^verbatim>\<open>TaskMutex\<close> and \<^verbatim>\<open>TaskMutex::ScopedLock\<close>\<close>

definition TaskMutex_new :: TaskMutex where
  "TaskMutex_new =
     \<lparr>tm_mutex = \<lparr>rw_writer = False, rw_pending = False, rw_readers = 0\<rparr>,
      m_executionStateMutex = None,
      m_executionState = None\<rparr>"

definition ScopedLock_new :: ScopedLock where
  "ScopedLock_new = \<lparr>m_lock = None, m_mutex = None, m_writer = False, m_recursive = False\<rparr>"

definition acquireOr :: "tid \<Rightarrow> addr \<Rightarrow> bool \<Rightarrow> (bool \<Rightarrow> bool) \<Rightarrow> (bool, 'u) op" where
  "acquireOr t mutex write workNotifier =
     bind_op get_self (\<lambda>h.
     then_op (assert_op (m_mutex h = None))
    (bind_op (try_acquire mutex write) (\<lambda>ok.
       if ok then
         then_op (set_self (\<lambda>h. h\<lparr>m_mutex := Some mutex, m_recursive := False, m_writer := write\<rparr>))
           (return_op True)
       else
         then_op (lock_Msx t mutex)
        (bind_op (readE mutex) (\<lambda>e.
         bind_op (if e = None then return_op False
                  else bind_op (readE mutex) (\<lambda>e'. containsThisThread t (the e'))) (\<lambda>inside.
           if inside then
             then_op (set_self (\<lambda>h. h\<lparr>m_mutex := Some mutex, m_recursive := True, m_writer := False\<rparr>))
            (then_op (unlock_Msx mutex)
            (return_op True))
           else
             bind_op (readE mutex) (\<lambda>e''.
             then_op (log (Notify (e'' \<noteq> None) (workNotifier (e'' \<noteq> None))))
               (if \<not> workNotifier (e'' \<noteq> None) \<or> \<not> (e'' \<noteq> None) then
                  then_op (unlock_Msx mutex) (return_op False)
                else
                  bind_op (readE mutex) (\<lambda>executionState.
                  then_op (unlock_Msx mutex)
                 (then_op (arena_execute t executionState (taskGroup_wait executionState))
                 (return_op False)))))))))))"

text \<open>
  \<^verbatim>\<open>acquire\<close>: the loop around \<^verbatim>\<open>acquireOr\<close>, with the number of rounds it may take;
  when they are used up the thread is still spinning.
\<close>

fun acquire :: "nat \<Rightarrow> tid \<Rightarrow> addr \<Rightarrow> bool \<Rightarrow> bool \<Rightarrow> (unit, 'u) op" where
  "acquire 0 t mutex write acceptWork = (\<lambda>s. (Blocked, s))"
| "acquire (Suc n) t mutex write acceptWork =
     bind_op (acquireOr t mutex write (\<lambda>workAvailable. acceptWork)) (\<lambda>ok.
       if ok then return_op () else acquire n t mutex write acceptWork)"

definition tryAcquire :: "tid \<Rightarrow> addr \<Rightarrow> bool \<Rightarrow> (bool, 'u) op" where
  "tryAcquire t mutex write = acquireOr t mutex write (\<lambda>workAvailable. False)"

definition upgradeToWriter :: "bool \<Rightarrow> (bool, 'u) op" where
  "upgradeToWriter contended =
     bind_op get_self (\<lambda>h.
     then_op (assert_op (m_mutex h \<noteq> None \<and> \<not> m_writer h \<and> \<not> m_recursive h))
    (then_op (set_self (\<lambda>h. h\<lparr>m_writer := True\<rparr>))
    (upgrade_to_writer contended)))"

definition execute :: "tid \<Rightarrow> ('u \<Rightarrow> exn option \<times> 'u) \<Rightarrow> (unit, 'u) op" where
  "execute t f =
     bind_op get_self (\<lambda>h.
     then_op (assert_op (m_mutex h \<noteq> None \<and> m_writer h \<and> \<not> m_recursive h))
    (then_op (lock_Msx t (the (m_mutex h)))
    (bind_op (readE (the (m_mutex h))) (\<lambda>e.
     then_op (assert_op (e = None))
    (bind_op make_shared (\<lambda>new.
     then_op (writeE (the (m_mutex h)) (Some new))
    (then_op (unlock_Msx (the (m_mutex h)))
    (bind_op (readE (the (m_mutex h))) (\<lambda>e1.
     then_op (arena_execute t e1
        (bind_op (readE (the (m_mutex h))) (\<lambda>e2.
         then_op (taskGroup_run e2 f)
        (bind_op (readE (the (m_mutex h))) (\<lambda>e3.
         taskGroup_wait e3)))))
    (then_op (lock_Msx t (the (m_mutex h)))
    (then_op (writeE (the (m_mutex h)) None)
    (unlock_Msx (the (m_mutex h))))))))))))))"

definition release :: "(unit, 'u) op" where
  "release =
     bind_op get_self (\<lambda>h.
     then_op (assert_op (m_mutex h \<noteq> None))
    (then_op (if \<not> m_recursive h then lock_release else return_op ())
    (set_self (\<lambda>h. h\<lparr>m_mutex := None\<rparr>))))"

text \<open>
  \<^verbatim>\<open>~ScopedLock\<close>: the body of the destructor, then the destructor of the member
  \<^verbatim>\<open>m_lock\<close>, which releases the internal mutex if the guard still holds it.
\<close>

definition destroy :: "(unit, 'u) op" where
  "destroy =
     bind_op get_self (\<lambda>h.
     then_op (if m_mutex h \<noteq> None then release else return_op ())
    (bind_op get_self (\<lambda>h'.
       if m_lock h' \<noteq> None then lock_release else return_op ())))"

section \<open>Lock discipline on the actions of a thread\<close>

text \<open>The lock an action needs: the slot E is guarded by Msx, the thread-id set by Mo.\<close>

fun guards :: "event \<Rightarrow> lock option" where
  "guards (ReadE a) = Some (Msx a)"
| "guards (WriteE a v) = Some (Msx a)"
| "guards (FindT e t) = Some (Mo e)"
| "guards (InsertT e t) = Some (Mo e)"
| "guards (EraseT e t) = Some (Mo e)"
| "guards _ = None"

fun write_guards :: "event \<Rightarrow> lock option" where
  "write_guards (WriteE a v) = Some (Msx a)"
| "write_guards (InsertT e t) = Some (Mo e)"
| "write_guards (EraseT e t) = Some (Mo e)"
| "write_guards _ = None"

fun held_after :: "lock set \<Rightarrow> event list \<Rightarrow> lock set" where
  "held_after H [] = H"
| "held_after H (Acquire l # es) = held_after (insert l H) es"
| "held_after H (Release l # es) = held_after (H - {l}) es"
| "held_after H (_ # es) = held_after H es"

text \<open>
  \<open>disciplined g H es\<close>: a thread that holds the locks \<open>H\<close> and performs \<open>es\<close> holds, at
  every action, the lock that \<open>g\<close> asks for.
\<close>

fun disciplined :: "(event \<Rightarrow> lock option) \<Rightarrow> lock set \<Rightarrow> event list \<Rightarrow> bool" where
  "disciplined g H [] = True"
| "disciplined g H (Acquire l # es) = disciplined g (insert l H) es"
| "disciplined g H (Release l # es) = disciplined g (H - {l}) es"
| "disciplined g H (e # es) =
     ((case g e of None \<Rightarrow> True | Some l \<Rightarrow> l \<in> H) \<and> disciplined g H es)"

text \<open>The actions a call performs: what it appends to the trace.\<close>

definition events_of :: "('a, 'u) op \<Rightarrow> 'u memory \<Rightarrow> event list" where
  "events_of m s = drop (length (trace s)) (trace (snd (m s)))"

text \<open>Actions that try the internal lock, and actions of a thread that works for the writer.\<close>

fun attempts_lock :: "event \<Rightarrow> bool" where
  "attempts_lock (TryAcquire a w ok) = True"
| "attempts_lock (AcquireL a w) = True"
| "attempts_lock (UpgradeL a) = True"
| "attempts_lock _ = False"

fun donates :: "event \<Rightarrow> bool" where
  "donates (EnterArena e) = True"
| "donates (LeaveArena e) = True"
| "donates (Run e) = True"
| "donates (Wait e) = True"
| "donates _ = False"

text \<open>The callbacks of an observer, as the task scheduler issues them one after the other.\<close>

datatype callback = Entry tid | Exit tid

fun notify :: "addr \<Rightarrow> callback \<Rightarrow> (unit, 'u) op" where
  "notify e (Entry t) = on_scheduler_entry t e"
| "notify e (Exit t) = on_scheduler_exit t e"

fun callbacks :: "addr \<Rightarrow> callback list \<Rightarrow> (unit, 'u) op" where
  "callbacks e [] = return_op ()"
| "callbacks e (c # cs) = then_op (notify e c) (callbacks e cs)"

text \<open>
  A handle holds the mutex at \<open>a\<close>: the back-pointer is set, and the guard holds the
  internal mutex in the mode of the handle unless the lock is recursive, in which case the
  guard is empty.
\<close>

definition holds :: "ScopedLock \<Rightarrow> addr \<Rightarrow> bool" where
  "holds h a =
     (m_mutex h = Some a
      \<and> (if m_recursive h then m_lock h = None else m_lock h = Some (a, m_writer h)))"

text \<open>The thread-id set of the observer of the execution state at \<open>e\<close>.\<close>

definition threadIds :: "addr \<Rightarrow> 'u memory \<Rightarrow> tid list" where
  "threadIds e s = m_threadIdSet (arenaObserver (heap s ! e))"

text \<open>
  The observer at \<open>e\<close> between two calls: its mutex is free and its set is a sorted vector
  without duplicates.
\<close>

definition observer_ok :: "addr \<Rightarrow> 'u memory \<Rightarrow> bool" where
  "observer_ok e s =
     (e < length (heap s) \<and> ao_mutex (arenaObserver (heap s ! e)) = None
      \<and> sorted (threadIds e s) \<and> distinct (threadIds e s))"

text \<open>Actions other than taking and giving back a lock.\<close>

fun plain :: "event \<Rightarrow> bool" where
  "plain (Acquire l) = False"
| "plain (Release l) = False"
| "plain _ = True"

text \<open>The action \<open>ev\<close> is allowed to a thread that holds the locks \<open>H\<close>.\<close>

definition permits :: "(event \<Rightarrow> lock option) \<Rightarrow> lock set \<Rightarrow> event \<Rightarrow> bool" where
  "permits g H ev = (case g ev of None \<Rightarrow> True | Some l \<Rightarrow> l \<in> H)"

text \<open>
  \<open>obeys g H m Hr He\<close>: called by a thread that holds the locks \<open>H\<close>, from any memory,
  \<open>m\<close> only appends to the trace, what it appends keeps the discipline \<open>g\<close>, and the
  thread holds \<open>Hr\<close> when \<open>m\<close> returns and \<open>He\<close> when it throws.
\<close>

definition obeys ::
    "(event \<Rightarrow> lock option) \<Rightarrow> lock set \<Rightarrow> ('a, 'u) op \<Rightarrow> lock set \<Rightarrow> lock set \<Rightarrow> bool" where
  "obeys g H m Hr He =
     (\<forall>s. \<exists>es. trace (snd (m s)) = trace s @ es \<and> disciplined g H es
        \<and> (case fst (m s) of
              Returned x \<Rightarrow> held_after H es = Hr
            | Raised x \<Rightarrow> held_after H es = He
            | _ \<Rightarrow> True))"

section \<open>Example memories\<close>

text \<open>Everything newly constructed: no lock held, no execution state, an idle handle.\<close>

definition fresh_memory :: "nat memory" where
  "fresh_memory =
     \<lparr>self = ScopedLock_new, mutexes = (\<lambda>_. TaskMutex_new), heap = [], user = 0, trace = []\<rparr>"

text \<open>The calling thread holds the mutex at address 0 through its handle, as writer.\<close>

definition writer_memory :: "nat memory" where
  "writer_memory =
     \<lparr>self = \<lparr>m_lock = Some (0, True), m_mutex = Some 0, m_writer = True, m_recursive = False\<rparr>,
      mutexes = (\<lambda>_. TaskMutex_new)
        (0 := \<lparr>tm_mutex = \<lparr>rw_writer = True, rw_pending = False, rw_readers = 0\<rparr>,
               m_executionStateMutex = None, m_executionState = None\<rparr>),
      heap = [], user = 0, trace = []\<rparr>"

text \<open>
  The calling thread holds the mutex at address 0 through its handle, as one of two readers.
\<close>

definition reader_memory :: "nat memory" where
  "reader_memory =
     \<lparr>self = \<lparr>m_lock = Some (0, False), m_mutex = Some 0, m_writer = False,
               m_recursive = False\<rparr>,
      mutexes = (\<lambda>_. TaskMutex_new)
        (0 := \<lparr>tm_mutex = \<lparr>rw_writer = False, rw_pending = False, rw_readers = 2\<rparr>,
               m_executionStateMutex = None, m_executionState = None\<rparr>),
      heap = [], user = 0, trace = []\<rparr>"

text \<open>
  Thread 1 holds the mutex at address 0 as writer; the handle is the idle handle of another
  thread.
\<close>

definition locked_memory :: "nat memory" where
  "locked_memory =
     \<lparr>self = ScopedLock_new,
      mutexes = (\<lambda>_. TaskMutex_new)
        (0 := \<lparr>tm_mutex = \<lparr>rw_writer = True, rw_pending = False, rw_readers = 0\<rparr>,
               m_executionStateMutex = None, m_executionState = None\<rparr>),
      heap = [], user = 0, trace = []\<rparr>"

text \<open>
  Thread 1 holds the mutex at address 0 as writer and is inside \<^verbatim>\<open>execute\<close>: it has
  published the execution state at address 0, has joined its arena and has run a closure that
  nobody has executed yet. The handle is the idle handle of another thread.
\<close>

definition executing_memory :: "nat memory" where
  "executing_memory =
     \<lparr>self = ScopedLock_new,
      mutexes = (\<lambda>_. TaskMutex_new)
        (0 := \<lparr>tm_mutex = \<lparr>rw_writer = True, rw_pending = False, rw_readers = 0\<rparr>,
               m_executionStateMutex = None, m_executionState = Some 0\<rparr>),
      heap = [\<lparr>arena = {1}, taskGroup = [\<lambda>u. (None, u + 5)],
               arenaObserver = \<lparr>ao_mutex = None, m_threadIdSet = [1]\<rparr>\<rparr>],
      user = 0, trace = []\<rparr>"

text \<open>The same, with a queued closure that throws.\<close>

definition throwing_memory :: "nat memory" where
  "throwing_memory =
     \<lparr>self = ScopedLock_new,
      mutexes = (\<lambda>_. TaskMutex_new)
        (0 := \<lparr>tm_mutex = \<lparr>rw_writer = True, rw_pending = False, rw_readers = 0\<rparr>,
               m_executionStateMutex = None, m_executionState = Some 0\<rparr>),
      heap = [\<lparr>arena = {1}, taskGroup = [\<lambda>u. (Some (Exn 7), u)],
               arenaObserver = \<lparr>ao_mutex = None, m_threadIdSet = [1]\<rparr>\<rparr>],
      user = 0, trace = []\<rparr>"

text \<open>As in the memory before the last, and thread 2 has joined the arena to help.\<close>

definition donor_memory :: "nat memory" where
  "donor_memory =
     \<lparr>self = ScopedLock_new,
      mutexes = (\<lambda>_. TaskMutex_new)
        (0 := \<lparr>tm_mutex = \<lparr>rw_writer = True, rw_pending = False, rw_readers = 0\<rparr>,
               m_executionStateMutex = None, m_executionState = Some 0\<rparr>),
      heap = [\<lparr>arena = {1, 2}, taskGroup = [],
               arenaObserver = \<lparr>ao_mutex = None, m_threadIdSet = [1, 2]\<rparr>\<rparr>],
      user = 0, trace = []\<rparr>"

section \<open>Running the definitions\<close>

lemmas op_defs = return_op_def bind_op_def then_op_def finally_op_def assert_op_def log_def
  get_self_def set_self_def update_mutex_def deref_def update_state_def
  lock_Msx_def unlock_Msx_def readE_def writeE_def try_acquire_def lock_release_def
  upgrade_to_writer_def update_observer_def lock_Mo_def unlock_Mo_def containsThisThread_def
  on_scheduler_entry_def on_scheduler_exit_def make_shared_def join_arena_def leave_arena_def
  arena_execute_def taskGroup_run_def taskGroup_wait_def flat_set_find_def

lemmas example_defs = fresh_memory_def writer_memory_def reader_memory_def locked_memory_def
  executing_memory_def
  throwing_memory_def donor_memory_def
  TaskMutex_new_def ScopedLock_new_def ExecutionState_new_def ArenaObserver_new_def
  can_acquire_def granted_def released_def

lemma restore_Msx:
  "m_executionStateMutex m = None \<Longrightarrow> m\<lparr>m_executionStateMutex := None\<rparr> = m"
  by (cases m) simp

lemma restore_Mo: "ao_mutex ob = None \<Longrightarrow> ob\<lparr>ao_mutex := None\<rparr> = ob"
  by (cases ob) simp

section \<open>The recursive grant\<close>

text \<open>
  Claim C2. A call of \<^verbatim>\<open>acquireOr\<close> on an idle handle, with any requested mode, whose try
  of the internal lock fails while an execution state is published whose observer has the
  calling thread in its set: the call returns true, the handle records the mutex with
  \<open>m_recursive = True\<close> and \<open>m_writer = False\<close>, and nothing else changes. The guard
  \<open>m_lock\<close> stays empty and the internal mutex is as before; the only actions are the failed
  try, the two reads of the slot and the lookup in the observer, under their locks.
\<close>

theorem acquireOr_recursive_grant:
  assumes "m_mutex (self s) = None" and "m_lock (self s) = None"
    and "\<not> can_acquire write (tm_mutex (mutexes s a))"
    and "m_executionStateMutex (mutexes s a) = None"
    and "m_executionState (mutexes s a) = Some e" and "e < length (heap s)"
    and "ao_mutex (arenaObserver (heap s ! e)) = None"
    and "t \<in> set (m_threadIdSet (arenaObserver (heap s ! e)))"
  shows "acquireOr t a write workNotifier s =
     (Returned True,
      s\<lparr>self := (self s)\<lparr>m_mutex := Some a, m_recursive := True, m_writer := False\<rparr>,
        trace := trace s @ [TryAcquire a write False, Acquire (Msx a), ReadE a, ReadE a,
                            Acquire (Mo e), FindT e t, Release (Mo e), Release (Msx a)]\<rparr>)"
  using assms
  by (simp add: acquireOr_def op_defs restore_Msx restore_Mo)

theorem acquireOr_recursive_grant_witness:
  "\<not> can_acquire True (tm_mutex (mutexes donor_memory 0))
   \<and> m_executionState (mutexes donor_memory 0) = Some 0
   \<and> 2 \<in> set (m_threadIdSet (arenaObserver (heap donor_memory ! 0)))
   \<and> fst (acquireOr 2 0 True (\<lambda>workAvailable. True) donor_memory) = Returned True
   \<and> self (snd (acquireOr 2 0 True (\<lambda>workAvailable. True) donor_memory))
       = \<lparr>m_lock = None, m_mutex = Some 0, m_writer = False, m_recursive = True\<rparr>
   \<and> mutexes (snd (acquireOr 2 0 True (\<lambda>workAvailable. True) donor_memory))
       = mutexes donor_memory"
  using acquireOr_recursive_grant [of donor_memory True 0 0 2 "\<lambda>workAvailable. True"]
  by (simp add: example_defs)

section \<open>\<^verbatim>\<open>execute\<close>\<close>

lemma restore_TaskMutex:
  "m_executionStateMutex m = None \<Longrightarrow> m_executionState m = None \<Longrightarrow>
   m\<lparr>m_executionStateMutex := None, m_executionState := None\<rparr> = m"
  by (cases m) simp

lemma restore_TaskMutex':
  "m_executionStateMutex m = None \<Longrightarrow> m_executionState m = None \<Longrightarrow>
   m\<lparr>m_executionState := None, m_executionStateMutex := None\<rparr> = m"
  by (cases m) simp

lemma restore_E: "m_executionState m = None \<Longrightarrow> m\<lparr>m_executionState := None\<rparr> = m"
  by (cases m) simp

lemmas execute_simps = execute_def op_defs restore_Msx restore_E restore_TaskMutex
  restore_TaskMutex'
  ExecutionState_new_def ArenaObserver_new_def flat_set_insert_def flat_set_erase_def

lemma execute_returns:
  assumes "m_mutex (self s) = Some a" and "m_writer (self s)" and "\<not> m_recursive (self s)"
    and "m_executionStateMutex (mutexes s a) = None"
    and "m_executionState (mutexes s a) = None"
    and "f (user s) = (None, u')"
  shows "fst (execute t f s) = Returned ()"
    and "self (snd (execute t f s)) = self s"
    and "mutexes (snd (execute t f s)) = mutexes s"
    and "user (snd (execute t f s)) = u'"
  using assms by (simp_all add: execute_simps)

text \<open>
  When the closure throws, \<^verbatim>\<open>wait\<close> throws after the group is empty, the thread leaves
  the arena, and the two statements after \<^verbatim>\<open>arena.execute\<close> are not reached: the slot
  keeps the pointer to the execution state.
\<close>

lemma execute_raises:
  assumes "m_mutex (self s) = Some a" and "m_writer (self s)" and "\<not> m_recursive (self s)"
    and "m_executionStateMutex (mutexes s a) = None"
    and "m_executionState (mutexes s a) = None"
    and "f (user s) = (Some x, u')"
  shows "fst (execute t f s) = Raised x"
    and "self (snd (execute t f s)) = self s"
    and "mutexes (snd (execute t f s)) =
           (mutexes s)(a := (mutexes s a)\<lparr>m_executionState := Some (length (heap s))\<rparr>)"
    and "taskGroup (heap (snd (execute t f s)) ! length (heap s)) = []"
    and "take 6 (events_of (execute t f) s) =
           [Acquire (Msx a), ReadE a, MakeShared (length (heap s)),
            WriteE a (Some (length (heap s))), Release (Msx a), ReadE a]"
  using assms by (simp_all add: execute_simps events_of_def)



text \<open>
  Claim C10. \<^verbatim>\<open>execute(f)\<close> on a handle held as non-recursive writer returns, when
  \<open>f\<close> completes normally, with the handle as it was (back-pointer, writer flag, recursive
  flag and guard) and the internal mutex as it was. The handle can then be released, and
  \<^verbatim>\<open>execute\<close> can be called on it again.
\<close>

theorem execute_frame:
  assumes "m_mutex (self s) = Some a" and "m_writer (self s)" and "\<not> m_recursive (self s)"
    and "m_lock (self s) = Some (a, True)"
    and "m_executionStateMutex (mutexes s a) = None"
    and "m_executionState (mutexes s a) = None"
    and "fst (f (user s)) = None"
  shows "fst (execute t f s) = Returned ()
   \<and> self (snd (execute t f s)) = self s
   \<and> tm_mutex (mutexes (snd (execute t f s)) a) = tm_mutex (mutexes s a)
   \<and> fst (release (snd (execute t f s))) = Returned ()
   \<and> (fst (g (user (snd (execute t f s)))) = None \<longrightarrow>
        fst (execute t g (snd (execute t f s))) = Returned ())"
proof -
  obtain u' where f: "f (user s) = (None, u')"
    using assms(7) by (cases "f (user s)") simp
  note r = execute_returns [where s = s and a = a and f = f and u' = u' and t = t,
      OF assms(1,2,3,5,6) f]
  have rel: "fst (release (snd (execute t f s))) = Returned ()"
    using assms(1,3,4) by (simp add: release_def op_defs r(2))
  have again: "fst (execute t g (snd (execute t f s))) = Returned ()"
    if g: "fst (g (user (snd (execute t f s)))) = None"
  proof -
    obtain u'' where g': "g (user (snd (execute t f s))) = (None, u'')"
      using g by (cases "g (user (snd (execute t f s)))") simp
    show ?thesis
      by (rule execute_returns(1) [where s = "snd (execute t f s)" and a = a and f = g
            and u' = u'', OF _ _ _ _ _ g'])
         (simp_all add: r(2,3) assms)
  qed
  show ?thesis using r(1,2) rel again by (simp add: r(3))
qed

theorem execute_frame_witness:
  "m_lock (self writer_memory) = Some (0, True)
   \<and> fst (execute 1 (\<lambda>u. (None, u + 1)) writer_memory) = Returned ()
   \<and> self (snd (execute 1 (\<lambda>u. (None, u + 1)) writer_memory)) =
       \<lparr>m_lock = Some (0, True), m_mutex = Some 0, m_writer = True, m_recursive = False\<rparr>
   \<and> tm_mutex (mutexes (snd (execute 1 (\<lambda>u. (None, u + 1)) writer_memory)) 0) =
       \<lparr>rw_writer = True, rw_pending = False, rw_readers = 0\<rparr>
   \<and> fst (release (snd (execute 1 (\<lambda>u. (None, u + 1)) writer_memory))) = Returned ()
   \<and> fst (execute 1 (\<lambda>u. (None, 2 * u))
            (snd (execute 1 (\<lambda>u. (None, u + 1)) writer_memory))) = Returned ()"
  using execute_frame [where s = writer_memory and a = 0 and f = "\<lambda>u. (None, u + 1)"
      and t = 1 and g = "\<lambda>u. (None, 2 * u)"]
  by (simp add: example_defs)

text \<open>
  Claim C1, on a closure that throws. Thread 1 holds the mutex at address 0 as writer and
  calls \<^verbatim>\<open>execute\<close> with a closure that throws \<open>Exn 7\<close>. The exception reaches the
  caller after the task group is empty, and the destructor of the handle releases the
  internal mutex. But the slot still points to the execution state: the statement that clears
  it is skipped by the exception.
\<close>

theorem execute_raise_keeps_E:
  "fst (execute 1 (\<lambda>u. (Some (Exn 7), u)) writer_memory) = Raised (Exn 7)
   \<and> taskGroup (heap (snd (execute 1 (\<lambda>u. (Some (Exn 7), u)) writer_memory)) ! 0) = []
   \<and> m_executionState (mutexes (snd (execute 1 (\<lambda>u. (Some (Exn 7), u)) writer_memory)) 0)
       = Some 0
   \<and> fst (destroy (snd (execute 1 (\<lambda>u. (Some (Exn 7), u)) writer_memory))) = Returned ()
   \<and> mutexes (snd (destroy (snd (execute 1 (\<lambda>u. (Some (Exn 7), u)) writer_memory)))) 0
       = \<lparr>tm_mutex = \<lparr>rw_writer = False, rw_pending = False, rw_readers = 0\<rparr>,
          m_executionStateMutex = None, m_executionState = Some 0\<rparr>"
  by (simp add: execute_simps example_defs destroy_def release_def)

text \<open>
  What the stale pointer does to the next writer: thread 3 acquires the mutex with the
  released handle and calls \<^verbatim>\<open>execute\<close>, which stops at the assertion that the slot is
  empty.
\<close>

lemma execute_after_raise_aborts:
  "fst (then_op (bind_op (acquireOr 3 0 True (\<lambda>workAvailable. False)) assert_op)
                (execute 3 (\<lambda>u. (None, u)))
          (snd (destroy (snd (execute 1 (\<lambda>u. (Some (Exn 7), u)) writer_memory)))))
     = Aborted"
  by (simp add: execute_simps example_defs destroy_def release_def acquireOr_def)

section \<open>Who touches the slot, and under which lock\<close>

lemma held_after_append: "held_after H (xs @ ys) = held_after (held_after H xs) ys"
  by (induction H xs rule: held_after.induct) simp_all

lemma disciplined_append:
  "disciplined g H (xs @ ys) = (disciplined g H xs \<and> disciplined g (held_after H xs) ys)"
  by (induction g H xs rule: disciplined.induct) simp_all

subsection \<open>Rules for the discipline, statement by statement\<close>

lemma obeysI:
  assumes "\<And>s. \<exists>es. trace (snd (m s)) = trace s @ es \<and> disciplined g H es
        \<and> (case fst (m s) of
              Returned x \<Rightarrow> held_after H es = Hr
            | Raised x \<Rightarrow> held_after H es = He
            | _ \<Rightarrow> True)"
  shows "obeys g H m Hr He"
  using assms by (simp add: obeys_def)

lemma obeys_bind:
  assumes m: "obeys g H m H1 He" and k: "\<And>x. obeys g H1 (k x) H2 He"
  shows "obeys g H (bind_op m k) H2 He"
proof (rule obeysI)
  fix s
  obtain r s1 where ms: "m s = (r, s1)" by (cases "m s")
  from m [unfolded obeys_def, rule_format, of s] ms
  obtain es where es: "trace s1 = trace s @ es" "disciplined g H es"
    and post: "case r of Returned x \<Rightarrow> held_after H es = H1
            | Raised x \<Rightarrow> held_after H es = He | _ \<Rightarrow> True"
    by auto
  show "\<exists>es. trace (snd (bind_op m k s)) = trace s @ es \<and> disciplined g H es
        \<and> (case fst (bind_op m k s) of
              Returned x \<Rightarrow> held_after H es = H2
            | Raised x \<Rightarrow> held_after H es = He
            | _ \<Rightarrow> True)"
  proof (cases r)
    case (Returned x)
    from k [of x, unfolded obeys_def, rule_format, of s1]
    obtain es' where es': "trace (snd (k x s1)) = trace s1 @ es'" "disciplined g H1 es'"
      and post': "case fst (k x s1) of Returned y \<Rightarrow> held_after H1 es' = H2
            | Raised y \<Rightarrow> held_after H1 es' = He | _ \<Rightarrow> True"
      by auto
    have "bind_op m k s = k x s1" using ms Returned by (simp add: bind_op_def)
    moreover have "held_after H es = H1" using post Returned by simp
    ultimately show ?thesis
      using es es' post'
      by (intro exI [of _ "es @ es'"])
         (simp add: disciplined_append held_after_append split: outcome.splits)
  next
    case (Raised x)
    then show ?thesis using ms es post by (intro exI [of _ es]) (simp add: bind_op_def)
  next
    case Aborted
    then show ?thesis using ms es post by (intro exI [of _ es]) (simp add: bind_op_def)
  next
    case Blocked
    then show ?thesis using ms es post by (intro exI [of _ es]) (simp add: bind_op_def)
  qed
qed

lemma obeys_then:
  "obeys g H m H1 He \<Longrightarrow> obeys g H1 n H2 He \<Longrightarrow> obeys g H (then_op m n) H2 He"
  unfolding then_op_def by (rule obeys_bind)

lemma obeys_finally:
  assumes b: "obeys g H body H1 H1'"
    and c: "obeys g H1 cleanup H2 He" and c': "obeys g H1' cleanup He He"
  shows "obeys g H (finally_op body cleanup) H2 He"
proof (rule obeysI)
  fix s
  obtain r s1 where ms: "body s = (r, s1)" by (cases "body s")
  from b [unfolded obeys_def, rule_format, of s] ms
  obtain es where es: "trace s1 = trace s @ es" "disciplined g H es"
    and post: "case r of Returned x \<Rightarrow> held_after H es = H1
            | Raised x \<Rightarrow> held_after H es = H1' | _ \<Rightarrow> True"
    by auto
  show "\<exists>es. trace (snd (finally_op body cleanup s)) = trace s @ es \<and> disciplined g H es
        \<and> (case fst (finally_op body cleanup s) of
              Returned x \<Rightarrow> held_after H es = H2
            | Raised x \<Rightarrow> held_after H es = He
            | _ \<Rightarrow> True)"
  proof (cases r)
    case (Returned x)
    from c [unfolded obeys_def, rule_format, of s1]
    obtain es' where es': "trace (snd (cleanup s1)) = trace s1 @ es'" "disciplined g H1 es'"
      and post': "case fst (cleanup s1) of Returned y \<Rightarrow> held_after H1 es' = H2
            | Raised y \<Rightarrow> held_after H1 es' = He | _ \<Rightarrow> True"
      by auto
    have "held_after H es = H1" using post Returned by simp
    then show ?thesis
      using ms Returned es es' post'
      by (intro exI [of _ "es @ es'"])
         (cases "cleanup s1"; cases "fst (cleanup s1)";
          simp add: finally_op_def bind_op_def return_op_def disciplined_append held_after_append)
  next
    case (Raised x)
    from c' [unfolded obeys_def, rule_format, of s1]
    obtain es' where es': "trace (snd (cleanup s1)) = trace s1 @ es'" "disciplined g H1' es'"
      and post': "case fst (cleanup s1) of Returned y \<Rightarrow> held_after H1' es' = He
            | Raised y \<Rightarrow> held_after H1' es' = He | _ \<Rightarrow> True"
      by auto
    have "held_after H es = H1'" using post Raised by simp
    then show ?thesis
      using ms Raised es es' post'
      by (intro exI [of _ "es @ es'"])
         (cases "cleanup s1"; cases "fst (cleanup s1)";
          simp add: finally_op_def bind_op_def return_op_def disciplined_append held_after_append)
  next
    case Aborted
    then show ?thesis using ms es by (intro exI [of _ es]) (simp add: finally_op_def)
  next
    case Blocked
    then show ?thesis using ms es by (intro exI [of _ es]) (simp add: finally_op_def)
  qed
qed

lemma obeys_if:
  "(b \<Longrightarrow> obeys g H m H1 He) \<Longrightarrow> (\<not> b \<Longrightarrow> obeys g H n H1 He)
   \<Longrightarrow> obeys g H (if b then m else n) H1 He"
  by simp

lemma obeys_post: "obeys g H m H1 He1 \<Longrightarrow> H1 = H2 \<Longrightarrow> He1 = He2 \<Longrightarrow> obeys g H m H2 He2"
  by simp

text \<open>Steps that leave the trace alone.\<close>

lemma obeys_silent:
  "(\<And>s. trace (snd (m s)) = trace s) \<Longrightarrow> (\<And>s x. fst (m s) \<noteq> Raised x) \<Longrightarrow> obeys g H m H He"
  by (rule obeysI, rule exI [of _ "[]"]) (auto split: outcome.splits)

lemma obeys_return: "obeys g H (return_op x) H He"
  by (rule obeys_silent) (simp_all add: return_op_def)

lemma obeys_assert: "obeys g H (assert_op b) H He"
  by (rule obeys_silent) (simp_all add: assert_op_def)

lemma obeys_get_self: "obeys g H get_self H He"
  by (rule obeys_silent) (simp_all add: get_self_def)

lemma obeys_set_self: "obeys g H (set_self f) H He"
  by (rule obeys_silent) (simp_all add: set_self_def)

lemma obeys_deref: "obeys g H (deref p) H He"
  by (rule obeys_silent) (simp_all add: deref_def split: option.splits)

text \<open>Steps whose actions take and give back no lock.\<close>

lemma plain_events:
  "\<forall>ev\<in>set es. plain ev \<and> permits g H ev \<Longrightarrow> disciplined g H es \<and> held_after H es = H"
proof (induction es)
  case Nil
  show ?case by simp
next
  case (Cons ev es)
  then show ?case by (cases ev) (simp_all add: permits_def)
qed

lemma obeys_plain:
  assumes "\<And>s. \<exists>es. trace (snd (m s)) = trace s @ es
             \<and> (\<forall>ev\<in>set es. plain ev \<and> permits g H ev)"
  shows "obeys g H m H H"
proof (rule obeysI)
  fix s
  from assms [of s] obtain es where "trace (snd (m s)) = trace s @ es"
    and "\<forall>ev\<in>set es. plain ev \<and> permits g H ev" by auto
  then show "\<exists>es. trace (snd (m s)) = trace s @ es \<and> disciplined g H es
        \<and> (case fst (m s) of Returned x \<Rightarrow> held_after H es = H
            | Raised x \<Rightarrow> held_after H es = H | _ \<Rightarrow> True)"
    using plain_events [of es g H] by (intro exI [of _ es]) (simp split: outcome.splits)
qed

lemma obeys_no_raise:
  "obeys g H m Hr He \<Longrightarrow> (\<And>s x. fst (m s) \<noteq> Raised x) \<Longrightarrow> obeys g H m Hr He'"
proof (rule obeysI)
  fix s
  assume o: "obeys g H m Hr He" and n: "\<And>s x. fst (m s) \<noteq> Raised x"
  from o [unfolded obeys_def, rule_format, of s]
  obtain es where "trace (snd (m s)) = trace s @ es" "disciplined g H es"
    "case fst (m s) of Returned x \<Rightarrow> held_after H es = Hr
            | Raised x \<Rightarrow> held_after H es = He | _ \<Rightarrow> True"
    by auto
  then show "\<exists>es. trace (snd (m s)) = trace s @ es \<and> disciplined g H es
        \<and> (case fst (m s) of Returned x \<Rightarrow> held_after H es = Hr
            | Raised x \<Rightarrow> held_after H es = He' | _ \<Rightarrow> True)"
    using n [of s] by (intro exI [of _ es]) (simp split: outcome.splits)
qed

lemma obeys_log: "plain ev \<Longrightarrow> permits g H ev \<Longrightarrow> obeys g H (log ev) H He"
  by (rule obeys_no_raise [OF obeys_plain]) (simp_all add: log_def)

lemma obeys_readE: "permits g H (ReadE a) \<Longrightarrow> obeys g H (readE a) H He"
  by (rule obeys_no_raise [OF obeys_plain]) (simp_all add: readE_def)

lemma obeys_writeE: "permits g H (WriteE a v) \<Longrightarrow> obeys g H (writeE a v) H He"
  by (rule obeys_no_raise [OF obeys_plain]) (simp_all add: writeE_def log_def update_mutex_def)

lemma obeys_try_acquire:
  "(\<And>ok. permits g H (TryAcquire a w ok)) \<Longrightarrow> obeys g H (try_acquire a w) H He"
  by (rule obeys_no_raise [OF obeys_plain])
     (simp_all add: try_acquire_def op_defs)

lemma obeys_make_shared:
  "(\<And>e. permits g H (MakeShared e)) \<Longrightarrow> obeys g H make_shared H He"
  by (rule obeys_no_raise [OF obeys_plain]) (simp_all add: make_shared_def)

lemma obeys_join_arena: "permits g H (EnterArena e) \<Longrightarrow> obeys g H (join_arena t e) H He"
  by (rule obeys_no_raise [OF obeys_plain]) (simp_all add: join_arena_def op_defs)

lemma obeys_leave_arena: "permits g H (LeaveArena e) \<Longrightarrow> obeys g H (leave_arena t e) H He"
  by (rule obeys_no_raise [OF obeys_plain]) (simp_all add: leave_arena_def op_defs)

lemma obeys_run: "(\<And>e. permits g H (Run e)) \<Longrightarrow> obeys g H (taskGroup_run p f) H He"
  by (rule obeys_no_raise [OF obeys_plain])
     (auto simp add: taskGroup_run_def op_defs split: option.splits)

lemma obeys_wait: "(\<And>e. permits g H (Wait e)) \<Longrightarrow> obeys g H (taskGroup_wait p) H H"
  by (rule obeys_plain)
     (auto simp add: taskGroup_wait_def op_defs Let_def split: option.splits prod.splits)

lemma obeys_update:
  "permits g H ev \<Longrightarrow> plain ev \<Longrightarrow> obeys g H (\<lambda>s. log ev (update_observer e f s)) H He"
  by (rule obeys_no_raise [OF obeys_plain]) (simp_all add: op_defs)

text \<open>Taking and giving back a lock.\<close>

lemma obeys_lock_Msx: "obeys g H (lock_Msx t a) (insert (Msx a) H) He"
  by (rule obeysI) (simp add: lock_Msx_def op_defs)

lemma obeys_unlock_Msx: "obeys g H (unlock_Msx a) (H - {Msx a}) He"
  by (rule obeysI) (simp add: unlock_Msx_def op_defs)

lemma obeys_lock_Mo: "obeys g H (lock_Mo t e) (insert (Mo e) H) He"
  by (rule obeysI) (simp add: lock_Mo_def op_defs)

lemma obeys_unlock_Mo: "obeys g H (unlock_Mo e) (H - {Mo e}) He"
  by (rule obeysI) (simp add: unlock_Mo_def op_defs)

lemmas obeys_rules = obeys_bind obeys_then obeys_if obeys_return obeys_assert obeys_get_self
  obeys_set_self obeys_deref obeys_log obeys_readE obeys_writeE obeys_try_acquire
  obeys_make_shared obeys_join_arena obeys_leave_arena obeys_run obeys_update
  obeys_lock_Msx obeys_unlock_Msx obeys_lock_Mo obeys_unlock_Mo

lemma permits_guards [simp]:
  "permits guards H (ReadE a) = (Msx a \<in> H)"
  "permits guards H (WriteE a v) = (Msx a \<in> H)"
  "permits guards H (FindT e t) = (Mo e \<in> H)"
  "permits guards H (InsertT e t) = (Mo e \<in> H)"
  "permits guards H (EraseT e t) = (Mo e \<in> H)"
  "permits guards H (TryAcquire a w ok)"
  "permits guards H (Notify b c)"
  "permits guards H (MakeShared e)"
  "permits guards H (EnterArena e)"
  "permits guards H (LeaveArena e)"
  "permits guards H (Run e)"
  "permits guards H (Wait e)"
  by (simp_all add: permits_def)

lemma permits_write_guards [simp]:
  "permits write_guards H (ReadE a)"
  "permits write_guards H (WriteE a v) = (Msx a \<in> H)"
  "permits write_guards H (FindT e t)"
  "permits write_guards H (InsertT e t) = (Mo e \<in> H)"
  "permits write_guards H (EraseT e t) = (Mo e \<in> H)"
  "permits write_guards H (TryAcquire a w ok)"
  "permits write_guards H (Notify b c)"
  "permits write_guards H (MakeShared e)"
  "permits write_guards H (EnterArena e)"
  "permits write_guards H (LeaveArena e)"
  "permits write_guards H (Run e)"
  "permits write_guards H (Wait e)"
  by (simp_all add: permits_def)

lemma obeys_containsThisThread:
  assumes "Mo e \<notin> H" and "permits g (insert (Mo e) H) (FindT e t)"
  shows "obeys g H (containsThisThread t e) H He"
  unfolding containsThisThread_def
  by (rule obeys_post [where ?He1.0 = He], (rule obeys_rules | simp add: assms)+)

lemma obeys_on_scheduler_entry:
  assumes "Mo e \<notin> H" and "permits g (insert (Mo e) H) (FindT e t)"
    and "permits g (insert (Mo e) H) (InsertT e t)"
  shows "obeys g H (on_scheduler_entry t e) H He"
  unfolding on_scheduler_entry_def
  by (rule obeys_post [where ?He1.0 = He],
      (rule obeys_rules obeys_containsThisThread | simp add: assms)+)

lemma obeys_on_scheduler_exit:
  assumes "Mo e \<notin> H" and "permits g (insert (Mo e) H) (FindT e t)"
    and "permits g (insert (Mo e) H) (EraseT e t)"
  shows "obeys g H (on_scheduler_exit t e) H He"
  unfolding on_scheduler_exit_def
  by (rule obeys_post [where ?He1.0 = He],
      (rule obeys_rules obeys_containsThisThread | simp add: assms)+)

lemma obeys_arena_execute:
  assumes "obeys g H body H H" and "\<And>e. Mo e \<notin> H"
    and "\<And>e. permits g (insert (Mo e) H) (FindT e t)"
    and "\<And>e. permits g (insert (Mo e) H) (InsertT e t)"
    and "\<And>e. permits g (insert (Mo e) H) (EraseT e t)"
    and "\<And>e. permits g H (EnterArena e)" and "\<And>e. permits g H (LeaveArena e)"
  shows "obeys g H (arena_execute t p body) H H"
  unfolding arena_execute_def
  by (rule obeys_post [where ?He1.0 = H],
      (rule obeys_rules obeys_finally obeys_on_scheduler_entry obeys_on_scheduler_exit assms
        | simp add: assms)+)

lemma obeys_acquireOr: "obeys guards {} (acquireOr t a w wn) {} {}"
  unfolding acquireOr_def
  by (rule obeys_post [where ?He1.0 = "{}"],
      (rule obeys_rules obeys_containsThisThread obeys_arena_execute obeys_wait
        | simp)+)

lemma obeys_tryAcquire: "obeys guards {} (tryAcquire t a w) {} {}"
  unfolding tryAcquire_def by (rule obeys_acquireOr)

lemma obeys_acquire: "obeys guards {} (acquire n t a w aw) {} {}"
proof (induction n)
  case 0
  show ?case by (rule obeysI) simp
next
  case (Suc n)
  show ?case
    unfolding acquire.simps
    by (rule obeys_bind [OF obeys_acquireOr]) (simp add: obeys_return Suc)
qed

lemma obeys_execute: "obeys write_guards {} (execute t f) {} {}"
  unfolding execute_def
  by (rule obeys_bind [OF obeys_get_self], rule obeys_post [where ?He1.0 = "{}"],
      (rule obeys_rules obeys_arena_execute obeys_wait
        | simp)+)

lemma obeys_events_of: "obeys g H m Hr He \<Longrightarrow> disciplined g H (events_of m s)"
  unfolding obeys_def events_of_def 
  by (metis append_eq_conv_conj)

subsection \<open>The slot\<close>

lemma execute_prefix:
  assumes "m_mutex (self s) = Some a" and "m_writer (self s)" and "\<not> m_recursive (self s)"
    and "m_executionStateMutex (mutexes s a) = None"
    and "m_executionState (mutexes s a) = None"
  shows "take 6 (events_of (execute t f) s) =
           [Acquire (Msx a), ReadE a, MakeShared (length (heap s)),
            WriteE a (Some (length (heap s))), Release (Msx a), ReadE a]"
proof (cases "f (user s)")
  case (Pair r u')
  show ?thesis
  proof (cases r)
    case None
    with Pair assms show ?thesis by (simp add: execute_simps events_of_def)
  next
    case (Some x)
    with Pair assms show ?thesis by (simp add: execute_simps events_of_def)
  qed
qed

text \<open>
  Claim C4 as stated fails on \<^verbatim>\<open>execute\<close>. Thread 1, writer of the mutex at address 0,
  calls \<^verbatim>\<open>execute\<close>: its sixth action is a read of the slot, for
  \<^verbatim>\<open>m_mutex->m_executionState->arena\<close>, and the five actions before it end with the
  release of Msx, so the thread holds no lock when it reads.
\<close>

theorem execute_reads_E_unlocked:
  "take 6 (events_of (execute 1 (\<lambda>u. (None, u))) writer_memory) =
     [Acquire (Msx 0), ReadE 0, MakeShared 0, WriteE 0 (Some 0), Release (Msx 0), ReadE 0]
   \<and> held_after {} (take 5 (events_of (execute 1 (\<lambda>u. (None, u))) writer_memory)) = {}
   \<and> \<not> disciplined guards {} (events_of (execute 1 (\<lambda>u. (None, u))) writer_memory)"
  by (simp add: execute_simps example_defs events_of_def)

text \<open>
  Claim C4, amended. From any memory, every access of \<^verbatim>\<open>acquireOr\<close>,
  \<^verbatim>\<open>tryAcquire\<close> and \<^verbatim>\<open>acquire\<close> to the slot is made while the thread holds Msx
  (so after the release of Msx only the copied pointer is used), and every write of
  \<^verbatim>\<open>execute\<close> to the slot is made while the thread holds Msx. The reads of
  \<^verbatim>\<open>execute\<close> are not all under Msx: called as its precondition asks, it reads the slot
  right after it has released Msx.
\<close>

theorem E_access_discipline:
  "disciplined guards {} (events_of (acquireOr t a wr workNotifier) s)
   \<and> disciplined guards {} (events_of (tryAcquire t a wr) s)
   \<and> disciplined guards {} (events_of (acquire n t a wr acceptWork) s)
   \<and> disciplined write_guards {} (events_of (execute t f) s)
   \<and> (m_mutex (self s) = Some b \<and> m_writer (self s) \<and> \<not> m_recursive (self s)
        \<and> m_executionStateMutex (mutexes s b) = None
        \<and> m_executionState (mutexes s b) = None
      \<longrightarrow> take 6 (events_of (execute t f) s) =
            [Acquire (Msx b), ReadE b, MakeShared (length (heap s)),
             WriteE b (Some (length (heap s))), Release (Msx b), ReadE b])"
  using obeys_events_of [OF obeys_acquireOr, of t a wr workNotifier s]
    obeys_events_of [OF obeys_tryAcquire, of t a wr s]
    obeys_events_of [OF obeys_acquire, of n t a wr acceptWork s]
    obeys_events_of [OF obeys_execute, of t f s]
    execute_prefix [of s b t f]
  by simp

theorem E_access_discipline_witness:
  "events_of (acquireOr 3 0 False (\<lambda>workAvailable. True)) executing_memory =
     [TryAcquire 0 False False, Acquire (Msx 0), ReadE 0, ReadE 0,
      Acquire (Mo 0), FindT 0 3, Release (Mo 0), ReadE 0, Notify True True, ReadE 0,
      Release (Msx 0), EnterArena 0,
      Acquire (Mo 0), FindT 0 3, Release (Mo 0), Acquire (Mo 0), InsertT 0 3, Release (Mo 0),
      Wait 0,
      Acquire (Mo 0), FindT 0 3, Release (Mo 0), Acquire (Mo 0), EraseT 0 3, Release (Mo 0),
      LeaveArena 0]
   \<and> disciplined guards {} (events_of (acquireOr 3 0 False (\<lambda>workAvailable. True)) executing_memory)
   \<and> disciplined guards {} (events_of (tryAcquire 3 0 False) executing_memory)
   \<and> disciplined guards {} (events_of (acquire 2 3 0 False True) executing_memory)
   \<and> disciplined write_guards {} (events_of (execute 1 (\<lambda>u. (None, u))) writer_memory)
   \<and> take 6 (events_of (execute 1 (\<lambda>u. (None, u))) writer_memory) =
       [Acquire (Msx 0), ReadE 0, MakeShared 0, WriteE 0 (Some 0), Release (Msx 0), ReadE 0]"
proof -
  have "events_of (acquireOr 3 0 False (\<lambda>workAvailable. True)) executing_memory =
     [TryAcquire 0 False False, Acquire (Msx 0), ReadE 0, ReadE 0,
      Acquire (Mo 0), FindT 0 3, Release (Mo 0), ReadE 0, Notify True True, ReadE 0,
      Release (Msx 0), EnterArena 0,
      Acquire (Mo 0), FindT 0 3, Release (Mo 0), Acquire (Mo 0), InsertT 0 3, Release (Mo 0),
      Wait 0,
      Acquire (Mo 0), FindT 0 3, Release (Mo 0), Acquire (Mo 0), EraseT 0 3, Release (Mo 0),
      LeaveArena 0]"
    by (simp add: acquireOr_def op_defs example_defs events_of_def flat_set_insert_def
          flat_set_erase_def)
  moreover have "m_mutex (self writer_memory) = Some 0 \<and> m_writer (self writer_memory)
      \<and> \<not> m_recursive (self writer_memory)
      \<and> m_executionStateMutex (mutexes writer_memory 0) = None
      \<and> m_executionState (mutexes writer_memory 0) = None
      \<and> heap writer_memory = []"
    by (simp add: example_defs)
  ultimately show ?thesis
    using E_access_discipline [where t = 3 and a = 0 and wr = False
        and workNotifier = "\<lambda>workAvailable. True" and s = executing_memory and n = 2
        and acceptWork = True and f = "\<lambda>u. (None, u)" and b = 0]
      E_access_discipline [where t = 1 and a = 0 and wr = True
        and workNotifier = "\<lambda>workAvailable. True" and s = writer_memory and n = 0
        and acceptWork = True and f = "\<lambda>u. (None, u)" and b = 0]
    by simp
qed

section \<open>\<^verbatim>\<open>tryAcquire\<close>\<close>

text \<open>
  Claim C5. \<^verbatim>\<open>tryAcquire\<close> on an idle handle, while no other thread is inside a
  critical section of Msx or of the observer: it returns, and it returns true exactly when
  the try of the internal lock succeeds or the calling thread is in the set of the observer
  of the published execution state, which is exactly when the handle holds the mutex
  afterwards. When it returns false the memory is as before, the handle included; only the
  trace has grown. The call tries the internal lock once and performs no action in an arena
  or on a task group.
\<close>

theorem tryAcquire_once:
  assumes "m_mutex (self s) = None" and "m_lock (self s) = None"
    and "m_executionStateMutex (mutexes s a) = None"
    and "\<forall>e. m_executionState (mutexes s a) = Some e \<longrightarrow>
           e < length (heap s) \<and> ao_mutex (arenaObserver (heap s ! e)) = None"
  shows "fst (tryAcquire t a w s) =
           Returned (can_acquire w (tm_mutex (mutexes s a))
             \<or> (\<exists>e. m_executionState (mutexes s a) = Some e \<and> t \<in> set (threadIds e s)))
   \<and> (fst (tryAcquire t a w s) = Returned True
        \<longleftrightarrow> holds (self (snd (tryAcquire t a w s))) a)
   \<and> (fst (tryAcquire t a w s) = Returned False
        \<longrightarrow> snd (tryAcquire t a w s) = s\<lparr>trace := trace (snd (tryAcquire t a w s))\<rparr>)
   \<and> length (filter attempts_lock (events_of (tryAcquire t a w) s)) = 1
   \<and> filter donates (events_of (tryAcquire t a w) s) = []"
proof (cases "m_executionState (mutexes s a)")
  case None
  with assms show ?thesis
    by (simp add: events_of_def tryAcquire_def acquireOr_def op_defs restore_Msx holds_def)
next
  case (Some e)
  with assms have "e < length (heap s)" "ao_mutex (arenaObserver (heap s ! e)) = None"
    by simp_all
  with Some assms(1-3) show ?thesis
    by (simp add: events_of_def tryAcquire_def acquireOr_def op_defs restore_Msx restore_Mo
          holds_def threadIds_def)
qed

theorem tryAcquire_once_witness:
  "fst (tryAcquire 3 0 True executing_memory) = Returned False
   \<and> self (snd (tryAcquire 3 0 True executing_memory)) = self executing_memory
   \<and> mutexes (snd (tryAcquire 3 0 True executing_memory)) = mutexes executing_memory
   \<and> heap (snd (tryAcquire 3 0 True executing_memory)) = heap executing_memory
   \<and> user (snd (tryAcquire 3 0 True executing_memory)) = user executing_memory
   \<and> events_of (tryAcquire 3 0 True) executing_memory =
       [TryAcquire 0 True False, Acquire (Msx 0), ReadE 0, ReadE 0,
        Acquire (Mo 0), FindT 0 3, Release (Mo 0), ReadE 0, Notify True False,
        Release (Msx 0)]
   \<and> fst (tryAcquire 2 0 False donor_memory) = Returned True
   \<and> holds (self (snd (tryAcquire 2 0 False donor_memory))) 0
   \<and> fst (tryAcquire 1 0 False fresh_memory) = Returned True
   \<and> holds (self (snd (tryAcquire 1 0 False fresh_memory))) 0"
  using tryAcquire_once [where s = executing_memory and a = 0 and t = 3 and w = True]
  by (simp add: tryAcquire_def acquireOr_def op_defs example_defs events_of_def holds_def)

section \<open>Helping the writer\<close>

lemma erase_insert: "t \<notin> set xs \<Longrightarrow> removeAll t (insort t xs) = xs"
  by (induction xs) auto

text \<open>
  \<^verbatim>\<open>acquireOr\<close> on an idle handle whose try of the internal lock fails and to which
  no recursive lock is granted, with Msx free. The notifier is called with whether the slot
  is non-empty. If the slot is empty, or the notifier answers false, the call returns false
  after releasing Msx and has entered no arena. Otherwise it reads the slot once more under
  Msx (the copy of the pointer), releases Msx, enters the arena of that execution state, waits
  for its task group there and leaves the arena. If the queued closures complete normally, the
  call then returns false; the task group is empty and the closures have run.
\<close>

lemma acquireOr_donation:
  assumes "m_mutex (self s) = None" and "m_lock (self s) = None"
    and "\<not> can_acquire w (tm_mutex (mutexes s a))"
    and "m_executionStateMutex (mutexes s a) = None"
  shows "(m_executionState (mutexes s a) = None \<longrightarrow>
          acquireOr t a w workNotifier s =
            (Returned False,
             s\<lparr>trace := trace s @
                 [TryAcquire a w False, Acquire (Msx a), ReadE a, ReadE a,
                  Notify False (workNotifier False), Release (Msx a)]\<rparr>))
   \<and> (m_executionState (mutexes s a) = Some e \<and> e < length (heap s)
        \<and> ao_mutex (arenaObserver (heap s ! e)) = None
        \<and> t \<notin> set (m_threadIdSet (arenaObserver (heap s ! e)))
        \<and> \<not> workNotifier True \<longrightarrow>
          acquireOr t a w workNotifier s =
            (Returned False,
             s\<lparr>trace := trace s @
                 [TryAcquire a w False, Acquire (Msx a), ReadE a, ReadE a,
                  Acquire (Mo e), FindT e t, Release (Mo e),
                  ReadE a, Notify True False, Release (Msx a)]\<rparr>))
   \<and> (m_executionState (mutexes s a) = Some e \<and> e < length (heap s)
        \<and> ao_mutex (arenaObserver (heap s ! e)) = None
        \<and> t \<notin> set (m_threadIdSet (arenaObserver (heap s ! e)))
        \<and> t \<notin> arena (heap s ! e)
        \<and> workNotifier True
        \<and> run_tasks (taskGroup (heap s ! e)) (user s) = (None, u') \<longrightarrow>
          acquireOr t a w workNotifier s =
            (Returned False,
             s\<lparr>heap := (heap s)[e := (heap s ! e)\<lparr>taskGroup := []\<rparr>],
               user := u',
               trace := trace s @
                 [TryAcquire a w False, Acquire (Msx a), ReadE a, ReadE a,
                  Acquire (Mo e), FindT e t, Release (Mo e),
                  ReadE a, Notify True True, ReadE a, Release (Msx a),
                  EnterArena e,
                  Acquire (Mo e), FindT e t, Release (Mo e),
                  Acquire (Mo e), InsertT e t, Release (Mo e),
                  Wait e,
                  Acquire (Mo e), FindT e t, Release (Mo e),
                  Acquire (Mo e), EraseT e t, Release (Mo e),
                  LeaveArena e]\<rparr>))"
proof (intro conjI impI)
  assume "m_executionState (mutexes s a) = None"
  with assms show "acquireOr t a w workNotifier s =
            (Returned False,
             s\<lparr>trace := trace s @
                 [TryAcquire a w False, Acquire (Msx a), ReadE a, ReadE a,
                  Notify False (workNotifier False), Release (Msx a)]\<rparr>)"
    by (simp add: acquireOr_def op_defs restore_Msx)
next
  assume "m_executionState (mutexes s a) = Some e \<and> e < length (heap s)
        \<and> ao_mutex (arenaObserver (heap s ! e)) = None
        \<and> t \<notin> set (m_threadIdSet (arenaObserver (heap s ! e)))
        \<and> \<not> workNotifier True"
  with assms show "acquireOr t a w workNotifier s =
            (Returned False,
             s\<lparr>trace := trace s @
                 [TryAcquire a w False, Acquire (Msx a), ReadE a, ReadE a,
                  Acquire (Mo e), FindT e t, Release (Mo e),
                  ReadE a, Notify True False, Release (Msx a)]\<rparr>)"
    by (simp add: acquireOr_def op_defs restore_Msx restore_Mo)
next
  assume h: "m_executionState (mutexes s a) = Some e \<and> e < length (heap s)
        \<and> ao_mutex (arenaObserver (heap s ! e)) = None
        \<and> t \<notin> set (m_threadIdSet (arenaObserver (heap s ! e)))
        \<and> t \<notin> arena (heap s ! e)
        \<and> workNotifier True
        \<and> run_tasks (taskGroup (heap s ! e)) (user s) = (None, u')"
  have x: "(heap s ! e)\<lparr>arena := arena (heap s ! e) - {t}, taskGroup := [],
       arenaObserver := (arenaObserver (heap s ! e))\<lparr>ao_mutex := None\<rparr>\<rparr>
     = (heap s ! e)\<lparr>taskGroup := []\<rparr>"
    using h by (cases "heap s ! e") (simp add: restore_Mo)
  from assms h show "acquireOr t a w workNotifier s =
            (Returned False,
             s\<lparr>heap := (heap s)[e := (heap s ! e)\<lparr>taskGroup := []\<rparr>],
               user := u',
               trace := trace s @
                 [TryAcquire a w False, Acquire (Msx a), ReadE a, ReadE a,
                  Acquire (Mo e), FindT e t, Release (Mo e),
                  ReadE a, Notify True True, ReadE a, Release (Msx a),
                  EnterArena e,
                  Acquire (Mo e), FindT e t, Release (Mo e),
                  Acquire (Mo e), InsertT e t, Release (Mo e),
                  Wait e,
                  Acquire (Mo e), FindT e t, Release (Mo e),
                  Acquire (Mo e), EraseT e t, Release (Mo e),
                  LeaveArena e]\<rparr>)"
    by (simp add: acquireOr_def op_defs restore_Msx restore_Mo flat_set_insert_def
          flat_set_erase_def erase_insert set_insort_key x)
qed

lemma acquireOr_donation_example:
  "\<not> can_acquire False (tm_mutex (mutexes executing_memory 0))
   \<and> fst (acquireOr 3 0 False (\<lambda>workAvailable. True) executing_memory) = Returned False
   \<and> user (snd (acquireOr 3 0 False (\<lambda>workAvailable. True) executing_memory)) = 5
   \<and> taskGroup (heap (snd (acquireOr 3 0 False (\<lambda>workAvailable. True) executing_memory)) ! 0)
       = []
   \<and> self (snd (acquireOr 3 0 False (\<lambda>workAvailable. True) executing_memory))
       = ScopedLock_new
   \<and> acquireOr 3 0 False (\<lambda>workAvailable. False) executing_memory =
       (Returned False,
        executing_memory\<lparr>trace :=
          [TryAcquire 0 False False, Acquire (Msx 0), ReadE 0, ReadE 0,
           Acquire (Mo 0), FindT 0 3, Release (Mo 0),
           ReadE 0, Notify True False, Release (Msx 0)]\<rparr>)
   \<and> acquireOr 3 0 True (\<lambda>workAvailable. True) locked_memory =
       (Returned False,
        locked_memory\<lparr>trace :=
          [TryAcquire 0 True False, Acquire (Msx 0), ReadE 0, ReadE 0,
           Notify False True, Release (Msx 0)]\<rparr>)"
  using acquireOr_donation [where s = executing_memory and a = 0 and w = False and t = 3
      and workNotifier = "\<lambda>workAvailable. True" and e = 0 and u' = 5]
    acquireOr_donation [where s = executing_memory and a = 0 and w = False and t = 3
      and workNotifier = "\<lambda>workAvailable. False" and e = 0 and u' = 5]
    acquireOr_donation [where s = locked_memory and a = 0 and w = True and t = 3
      and workNotifier = "\<lambda>workAvailable. True" and e = 0 and u' = 0]
  by (simp add: example_defs)

text \<open>
  Claim C6, on a queued closure that throws. The calling thread has an idle handle, its try
  of the internal lock fails, no recursive lock is granted, the slot holds an execution
  state, the notifier answers true, and the thread is not inside the arena. It copies the
  pointer under Msx, releases Msx, enters the arena and waits for the task group. When a
  queued closure throws \<open>x\<close>, \<^verbatim>\<open>wait\<close> throws \<open>x\<close> once the group is empty, the
  thread leaves the arena, and \<^verbatim>\<open>return false\<close> is not reached: the call ends with the
  exception \<open>x\<close> of the writer's closure instead of returning false, and so does the loop
  of \<^verbatim>\<open>acquire\<close> around it.
\<close>

theorem acquireOr_donation_raises:
  assumes "m_mutex (self s) = None" and "m_lock (self s) = None"
    and "\<not> can_acquire w (tm_mutex (mutexes s a))"
    and "m_executionStateMutex (mutexes s a) = None"
    and "m_executionState (mutexes s a) = Some e" and "e < length (heap s)"
    and "ao_mutex (arenaObserver (heap s ! e)) = None"
    and "t \<notin> set (m_threadIdSet (arenaObserver (heap s ! e)))"
    and "t \<notin> arena (heap s ! e)"
    and "workNotifier True"
    and "run_tasks (taskGroup (heap s ! e)) (user s) = (Some x, u')"
  shows "acquireOr t a w workNotifier s =
     (Raised x,
      s\<lparr>heap := (heap s)[e := (heap s ! e)\<lparr>taskGroup := []\<rparr>],
        user := u',
        trace := trace s @
          [TryAcquire a w False, Acquire (Msx a), ReadE a, ReadE a,
           Acquire (Mo e), FindT e t, Release (Mo e),
           ReadE a, Notify True True, ReadE a, Release (Msx a),
           EnterArena e,
           Acquire (Mo e), FindT e t, Release (Mo e),
           Acquire (Mo e), InsertT e t, Release (Mo e),
           Wait e,
           Acquire (Mo e), FindT e t, Release (Mo e),
           Acquire (Mo e), EraseT e t, Release (Mo e),
           LeaveArena e]\<rparr>)
   \<and> fst (acquireOr t a w workNotifier s) \<noteq> Returned False
   \<and> fst (acquire (Suc n) t a w True s) = Raised x"
proof -
  have x: "(heap s ! e)\<lparr>arena := arena (heap s ! e) - {t}, taskGroup := [],
       arenaObserver := (arenaObserver (heap s ! e))\<lparr>ao_mutex := None\<rparr>\<rparr>
     = (heap s ! e)\<lparr>taskGroup := []\<rparr>"
    using assms by (cases "heap s ! e") (simp add: restore_Mo)
  have r: "acquireOr t a w wn s =
     (Raised x,
      s\<lparr>heap := (heap s)[e := (heap s ! e)\<lparr>taskGroup := []\<rparr>],
        user := u',
        trace := trace s @
          [TryAcquire a w False, Acquire (Msx a), ReadE a, ReadE a,
           Acquire (Mo e), FindT e t, Release (Mo e),
           ReadE a, Notify True True, ReadE a, Release (Msx a),
           EnterArena e,
           Acquire (Mo e), FindT e t, Release (Mo e),
           Acquire (Mo e), InsertT e t, Release (Mo e),
           Wait e,
           Acquire (Mo e), FindT e t, Release (Mo e),
           Acquire (Mo e), EraseT e t, Release (Mo e),
           LeaveArena e]\<rparr>)"
    if "wn True" for wn :: "bool \<Rightarrow> bool"
    using assms(1-9,11) that
    by (simp add: acquireOr_def op_defs restore_Msx restore_Mo flat_set_insert_def
          flat_set_erase_def erase_insert set_insort_key x)
  have "fst (acquire (Suc n) t a w True s) = Raised x"
    using r [of "\<lambda>workAvailable. True"] by (simp add: bind_op_def)
  then show ?thesis using r [of workNotifier] assms(10) by simp
qed

theorem acquireOr_donation_raises_witness:
  "\<not> can_acquire False (tm_mutex (mutexes throwing_memory 0))
   \<and> m_executionState (mutexes throwing_memory 0) = Some 0
   \<and> 3 \<notin> set (m_threadIdSet (arenaObserver (heap throwing_memory ! 0)))
   \<and> fst (acquireOr 3 0 False (\<lambda>workAvailable. True) throwing_memory) = Raised (Exn 7)
   \<and> self (snd (acquireOr 3 0 False (\<lambda>workAvailable. True) throwing_memory)) = ScopedLock_new
   \<and> taskGroup (heap (snd (acquireOr 3 0 False (\<lambda>workAvailable. True) throwing_memory)) ! 0)
       = []
   \<and> events_of (acquireOr 3 0 False (\<lambda>workAvailable. True)) throwing_memory =
       [TryAcquire 0 False False, Acquire (Msx 0), ReadE 0, ReadE 0,
        Acquire (Mo 0), FindT 0 3, Release (Mo 0),
        ReadE 0, Notify True True, ReadE 0, Release (Msx 0),
        EnterArena 0,
        Acquire (Mo 0), FindT 0 3, Release (Mo 0),
        Acquire (Mo 0), InsertT 0 3, Release (Mo 0),
        Wait 0,
        Acquire (Mo 0), FindT 0 3, Release (Mo 0),
        Acquire (Mo 0), EraseT 0 3, Release (Mo 0),
        LeaveArena 0]
   \<and> fst (acquire (Suc 0) 3 0 False True throwing_memory) = Raised (Exn 7)"
  using acquireOr_donation_raises [where s = throwing_memory and a = 0 and w = False
      and t = 3 and workNotifier = "\<lambda>workAvailable. True" and e = 0 and x = "Exn 7"
      and u' = 0 and n = 0]
  by (simp add: example_defs events_of_def)

section \<open>\<^verbatim>\<open>release\<close> and the destructor\<close>

text \<open>
  Claim C7. \<^verbatim>\<open>release\<close> on a handle that holds the mutex at \<open>a\<close>: if the lock is
  recursive, the only change is that the back-pointer is forgotten, and no action is performed
  on the internal mutex; otherwise the guard releases the internal mutex in the mode of the
  handle and the back-pointer is forgotten. Afterwards back-pointer and guard are empty, and
  the destructor returns without changing anything, so without an action on the internal
  mutex.
\<close>

theorem release_forgets:
  assumes "holds (self s) a"
  shows "release s =
     (Returned (),
      if m_recursive (self s) then s\<lparr>self := (self s)\<lparr>m_mutex := None\<rparr>\<rparr>
      else s\<lparr>self := (self s)\<lparr>m_lock := None, m_mutex := None\<rparr>,
             mutexes := (mutexes s)
               (a := (mutexes s a)
                  \<lparr>tm_mutex := released (m_writer (self s)) (tm_mutex (mutexes s a))\<rparr>),
             trace := trace s @ [ReleaseL a (m_writer (self s))]\<rparr>)
   \<and> m_mutex (self (snd (release s))) = None
   \<and> m_lock (self (snd (release s))) = None
   \<and> destroy (snd (release s)) = (Returned (), snd (release s))"
  using assms by (simp add: holds_def release_def destroy_def op_defs split: if_splits)

theorem release_forgets_witness:
  "holds (self writer_memory) 0
   \<and> fst (release writer_memory) = Returned ()
   \<and> events_of release writer_memory = [ReleaseL 0 True]
   \<and> tm_mutex (mutexes (snd (release writer_memory)) 0) =
       \<lparr>rw_writer = False, rw_pending = False, rw_readers = 0\<rparr>
   \<and> self (snd (release writer_memory)) =
       \<lparr>m_lock = None, m_mutex = None, m_writer = True, m_recursive = False\<rparr>
   \<and> destroy (snd (release writer_memory)) = (Returned (), snd (release writer_memory))"
proof -
  have h: "holds (self writer_memory) 0"
    by (simp add: example_defs holds_def)
  show ?thesis
    using h release_forgets [OF h]
    by (simp add: example_defs events_of_def destroy_def op_defs)
qed

text \<open>The same on a recursive lock: no action at all, and the internal mutex is untouched.\<close>

lemma release_recursive_example:
  "holds (self (snd (acquireOr 2 0 True (\<lambda>workAvailable. True) donor_memory))) 0
   \<and> m_recursive (self (snd (acquireOr 2 0 True (\<lambda>workAvailable. True) donor_memory)))
   \<and> events_of release (snd (acquireOr 2 0 True (\<lambda>workAvailable. True) donor_memory)) = []
   \<and> mutexes (snd (release (snd (acquireOr 2 0 True (\<lambda>workAvailable. True) donor_memory))))
       = mutexes donor_memory
   \<and> self (snd (release (snd (acquireOr 2 0 True (\<lambda>workAvailable. True) donor_memory))))
       = \<lparr>m_lock = None, m_mutex = None, m_writer = False, m_recursive = True\<rparr>"
  by (simp add: acquireOr_def release_def op_defs example_defs holds_def events_of_def)

section \<open>\<^verbatim>\<open>upgradeToWriter\<close>\<close>

text \<open>
  Claim C8. \<^verbatim>\<open>upgradeToWriter\<close> on a handle that holds the mutex at \<open>a\<close> as a
  non-recursive reader sets the writer flag and calls \<^verbatim>\<open>upgrade_to_writer\<close> of the guard,
  whose answer it returns: true exactly when the guard did not release its read access on the
  way. Whatever the answer, the handle is a writer afterwards: flag set, guard in writer mode,
  internal mutex held by a writer.
\<close>

theorem upgradeToWriter_writer:
  assumes "m_mutex (self s) = Some a" and "\<not> m_writer (self s)" and "\<not> m_recursive (self s)"
    and "m_lock (self s) = Some (a, False)"
  shows "upgradeToWriter contended s =
     (Returned (\<not> contended),
      s\<lparr>self := (self s)\<lparr>m_lock := Some (a, True), m_writer := True\<rparr>,
        mutexes := (mutexes s)
          (a := (mutexes s a)
             \<lparr>tm_mutex := \<lparr>rw_writer = True, rw_pending = False, rw_readers = 0\<rparr>\<rparr>),
        trace := trace s @
          (if contended then [ReleaseL a False, AcquireL a True] else [UpgradeL a])\<rparr>)
   \<and> (fst (upgradeToWriter contended s) = Returned True
        \<longleftrightarrow> ReleaseL a False \<notin> set (events_of (upgradeToWriter contended) s))
   \<and> m_writer (self (snd (upgradeToWriter contended s)))
   \<and> m_lock (self (snd (upgradeToWriter contended s))) = Some (a, True)
   \<and> rw_writer (tm_mutex (mutexes (snd (upgradeToWriter contended s)) a))"
  using assms by (simp add: upgradeToWriter_def op_defs events_of_def)

theorem upgradeToWriter_writer_witness:
  "m_lock (self reader_memory) = Some (0, False)
   \<and> fst (upgradeToWriter False reader_memory) = Returned True
   \<and> events_of (upgradeToWriter False) reader_memory = [UpgradeL 0]
   \<and> self (snd (upgradeToWriter False reader_memory)) =
       \<lparr>m_lock = Some (0, True), m_mutex = Some 0, m_writer = True, m_recursive = False\<rparr>
   \<and> fst (upgradeToWriter True reader_memory) = Returned False
   \<and> events_of (upgradeToWriter True) reader_memory = [ReleaseL 0 False, AcquireL 0 True]
   \<and> self (snd (upgradeToWriter True reader_memory)) =
       \<lparr>m_lock = Some (0, True), m_mutex = Some 0, m_writer = True, m_recursive = False\<rparr>
   \<and> tm_mutex (mutexes (snd (upgradeToWriter True reader_memory)) 0) =
       \<lparr>rw_writer = True, rw_pending = False, rw_readers = 0\<rparr>"
  using upgradeToWriter_writer [where s = reader_memory and a = 0 and contended = False]
    upgradeToWriter_writer [where s = reader_memory and a = 0 and contended = True]
  by (simp add: example_defs events_of_def)

section \<open>The observer\<close>

lemma flat_set_insert_ok:
  "sorted xs \<Longrightarrow> distinct xs \<Longrightarrow>
   sorted (flat_set_insert t xs) \<and> distinct (flat_set_insert t xs)
   \<and> set (flat_set_insert t xs) = insert t (set xs)"
  by (auto simp add: flat_set_insert_def sorted_insort distinct_insort set_insort_key)

lemma flat_set_erase_ok:
  "sorted xs \<Longrightarrow> distinct xs \<Longrightarrow>
   sorted (flat_set_erase t xs) \<and> distinct (flat_set_erase t xs)
   \<and> set (flat_set_erase t xs) = set xs - {t}"
  by (auto simp add: flat_set_erase_def sorted_wrt_filter removeAll_filter_not_eq distinct_removeAll)

lemma containsThisThread_ok:
  assumes "observer_ok e s"
  shows "containsThisThread t e s =
     (Returned (t \<in> set (threadIds e s)),
      s\<lparr>trace := trace s @ [Acquire (Mo e), FindT e t, Release (Mo e)]\<rparr>)"
  using assms by (simp add: observer_ok_def threadIds_def op_defs restore_Mo)

lemma entry_ok:
  assumes "observer_ok e s"
  shows "on_scheduler_entry t e s =
     (if t \<in> set (threadIds e s)
      then (Aborted, s\<lparr>trace := trace s @ [Acquire (Mo e), FindT e t, Release (Mo e)]\<rparr>)
      else (Returned (),
            s\<lparr>heap := (heap s)[e := (heap s ! e)\<lparr>arenaObserver :=
                 (arenaObserver (heap s ! e))\<lparr>m_threadIdSet :=
                    flat_set_insert t (threadIds e s)\<rparr>\<rparr>],
              trace := trace s @ [Acquire (Mo e), FindT e t, Release (Mo e),
                                  Acquire (Mo e), InsertT e t, Release (Mo e)]\<rparr>))"
  using assms by (simp add: observer_ok_def threadIds_def op_defs restore_Mo)

lemma exit_ok:
  assumes "observer_ok e s"
  shows "on_scheduler_exit t e s =
     (if t \<in> set (threadIds e s)
      then (Returned (),
            s\<lparr>heap := (heap s)[e := (heap s ! e)\<lparr>arenaObserver :=
                 (arenaObserver (heap s ! e))\<lparr>m_threadIdSet :=
                    flat_set_erase t (threadIds e s)\<rparr>\<rparr>],
              trace := trace s @ [Acquire (Mo e), FindT e t, Release (Mo e),
                                  Acquire (Mo e), EraseT e t, Release (Mo e)]\<rparr>)
      else (Aborted, s\<lparr>trace := trace s @ [Acquire (Mo e), FindT e t, Release (Mo e)]\<rparr>))"
  using assms by (simp add: observer_ok_def threadIds_def op_defs restore_Mo)

lemma notify_ok: "observer_ok e s \<Longrightarrow> observer_ok e (snd (notify e c s))"
proof (cases c)
  case (Entry t)
  assume ok: "observer_ok e s"
  then show ?thesis
    using flat_set_insert_ok [of "threadIds e s" t]
    by (simp add: Entry entry_ok) (simp add: observer_ok_def threadIds_def)
next
  case (Exit t)
  assume ok: "observer_ok e s"
  then show ?thesis
    using flat_set_erase_ok [of "threadIds e s" t]
    by (simp add: Exit exit_ok) (simp add: observer_ok_def threadIds_def)
qed

lemma callbacks_ok: "observer_ok e s \<Longrightarrow> observer_ok e (snd (callbacks e cs s))"
proof (induction cs arbitrary: s)
  case Nil
  then show ?case by (simp add: return_op_def)
next
  case (Cons c cs)
  obtain r s1 where n: "notify e c s = (r, s1)" by (cases "notify e c s")
  have ok1: "observer_ok e s1" using notify_ok [OF Cons.prems, of c] n by simp
  show ?case
  proof (cases r)
    case (Returned u)
    then show ?thesis using n Cons.IH [OF ok1] by (simp add: then_op_def bind_op_def)
  qed (use n ok1 in \<open>simp_all add: then_op_def bind_op_def\<close>)
qed

text \<open>
  Claim C9. Take an execution state whose observer is newly constructed, and let the scheduler
  issue any sequence of entry and exit callbacks. In the memory reached, the thread-id set has
  no duplicate; \<^verbatim>\<open>containsThisThread\<close> takes the mutex of the observer, looks the
  calling thread up, releases the mutex and returns whether the thread is in the set; the
  entry callback of a thread that is not in the set inserts it under the mutex; the exit
  callback of a thread that is in the set removes it under the mutex.
\<close>

theorem observer_thread_set:
  assumes "e < length (heap s)" and "arenaObserver (heap s ! e) = ArenaObserver_new"
  shows "distinct (threadIds e (snd (callbacks e cs s)))
   \<and> containsThisThread t e (snd (callbacks e cs s)) =
       (Returned (t \<in> set (threadIds e (snd (callbacks e cs s)))),
        (snd (callbacks e cs s))
          \<lparr>trace := trace (snd (callbacks e cs s)) @
             [Acquire (Mo e), FindT e t, Release (Mo e)]\<rparr>)
   \<and> (t \<notin> set (threadIds e (snd (callbacks e cs s))) \<longrightarrow>
        fst (on_scheduler_entry t e (snd (callbacks e cs s))) = Returned ()
        \<and> set (threadIds e (snd (on_scheduler_entry t e (snd (callbacks e cs s))))) =
            insert t (set (threadIds e (snd (callbacks e cs s))))
        \<and> events_of (on_scheduler_entry t e) (snd (callbacks e cs s)) =
            [Acquire (Mo e), FindT e t, Release (Mo e),
             Acquire (Mo e), InsertT e t, Release (Mo e)])
   \<and> (t \<in> set (threadIds e (snd (callbacks e cs s))) \<longrightarrow>
        fst (on_scheduler_exit t e (snd (callbacks e cs s))) = Returned ()
        \<and> set (threadIds e (snd (on_scheduler_exit t e (snd (callbacks e cs s))))) =
            set (threadIds e (snd (callbacks e cs s))) - {t}
        \<and> events_of (on_scheduler_exit t e) (snd (callbacks e cs s)) =
            [Acquire (Mo e), FindT e t, Release (Mo e),
             Acquire (Mo e), EraseT e t, Release (Mo e)])"
proof -
  have "observer_ok e s"
    using assms by (simp add: observer_ok_def threadIds_def ArenaObserver_new_def)
  then have ok: "observer_ok e (snd (callbacks e cs s))" by (rule callbacks_ok)
  then have len: "e < length (heap (snd (callbacks e cs s)))"
    and srt: "sorted (threadIds e (snd (callbacks e cs s)))"
    and dst: "distinct (threadIds e (snd (callbacks e cs s)))"
    by (simp_all add: observer_ok_def)
  show ?thesis
    using dst len
      flat_set_insert_ok [OF srt dst, of t] flat_set_erase_ok [OF srt dst, of t]
    by (simp add: containsThisThread_ok [OF ok] entry_ok [OF ok] exit_ok [OF ok]
          events_of_def threadIds_def)
qed

theorem observer_thread_set_witness:
  "threadIds 0 (snd (callbacks 0 [Entry 2, Entry 1, Exit 2, Entry 3]
                      (snd (make_shared fresh_memory)))) = [1, 3]
   \<and> distinct (threadIds 0 (snd (callbacks 0 [Entry 2, Entry 1, Exit 2, Entry 3]
                      (snd (make_shared fresh_memory)))))
   \<and> fst (containsThisThread 3 0 (snd (callbacks 0 [Entry 2, Entry 1, Exit 2, Entry 3]
                      (snd (make_shared fresh_memory))))) = Returned True
   \<and> fst (on_scheduler_exit 3 0 (snd (callbacks 0 [Entry 2, Entry 1, Exit 2, Entry 3]
                      (snd (make_shared fresh_memory))))) = Returned ()
   \<and> set (threadIds 0 (snd (on_scheduler_exit 3 0
              (snd (callbacks 0 [Entry 2, Entry 1, Exit 2, Entry 3]
                      (snd (make_shared fresh_memory))))))) = {1}"
proof -
  let ?S = "snd (callbacks 0 [Entry 2, Entry 1, Exit 2, Entry 3]
                      (snd (make_shared fresh_memory)))"
  have c: "threadIds 0 ?S = [1, 3]"
    by (simp add: op_defs example_defs threadIds_def flat_set_insert_def flat_set_erase_def)
  have h1: "0 < length (heap (snd (make_shared fresh_memory)))"
    by (simp add: make_shared_def fresh_memory_def)
  have h2: "arenaObserver (heap (snd (make_shared fresh_memory)) ! 0) = ArenaObserver_new"
    by (simp add: make_shared_def fresh_memory_def ExecutionState_new_def)
  note T = observer_thread_set [OF h1 h2, where cs = "[Entry 2, Entry 1, Exit 2, Entry 3]"
      and t = 3]
  from T have d: "distinct (threadIds 0 ?S)" by (rule conjunct1)
  from T have k: "fst (containsThisThread 3 0 ?S) = Returned (3 \<in> set (threadIds 0 ?S))"
    by simp
  have m: "3 \<in> set (threadIds 0 ?S)" by (simp only: c) simp
  from T m have x: "fst (on_scheduler_exit 3 0 ?S) = Returned ()"
    "set (threadIds 0 (snd (on_scheduler_exit 3 0 ?S))) = set (threadIds 0 ?S) - {3}"
    by blast+
  have y: "set (threadIds 0 ?S) - {3} = {1}" by (simp only: c) auto
  show ?thesis
    using c d k m x y by (simp only: simp_thms)
qed

end
